theory Spec2Isabelle
  imports Complex_Main
begin

section \<open>The multigrid solve driver \<open>mg_solve\<close> (include/multigrid/mg_solver.h)\<close>

text \<open>
  \<open>mg_solve\<close> is one dense function. It validates the smoother name, builds one
  smoother configuration per level, optionally estimates eigenvalues on the levels above
  the coarsest one, initialises the production smoother, builds one of three coarse-grid
  solvers, wires seven timer callbacks into the cycle engine, runs the outer
  conjugate-gradient solve and finally dumps a per-level table.

  The level operators, the Chebyshev smoother, the multigrid cycle engine, the outer
  solver and the table class belong to the numerical library below the function. The
  model records every call into them as an event of a trace, in program order, and takes
  what they hand back (eigenvalue estimates, the timer signals fired during the outer
  solve, the clock readings) as part of the input. These collaborators are taken to return
  normally.

  Levels are \<open>unsigned int\<close> in the source and natural numbers here. The two agree as
  long as \<open>max_level + 1\<close> does not wrap around and \<open>min_level \<le> max_level\<close>, which
  is the invariant of the level container; \<open>levels_ok\<close> below states both.
\<close>

subsection \<open>Floating-point values\<close>

text \<open>
  A \<open>double\<close> is either the not-a-number sentinel (\<open>numbers::signaling_nan\<close>) or a
  value, idealised as a real number: rounding and infinities are left out. Comparison with
  the sentinel is false on both sides, as it is for IEEE numbers.
\<close>

datatype double = NaN | Val real

fun dless :: "double \<Rightarrow> double \<Rightarrow> bool" where
  "dless (Val a) (Val b) = (a < b)"
| "dless _ _ = False"

fun dmul :: "double \<Rightarrow> double \<Rightarrow> double" where
  "dmul (Val a) (Val b) = Val (a * b)"
| "dmul _ _ = NaN"

subsection \<open>Configuration (\<open>MGSolverParameters\<close>)\<close>

text \<open>
  The fields are the ones \<open>mg_solve\<close> reads. The two nested parameter groups both have
  a field \<open>type\<close>, and the smoother group shares three field names with the smoother's
  \<open>AdditionalData\<close>, so the groups' fields carry the prefixes \<open>sm_\<close> and \<open>cs_\<close>.
\<close>

record smoother_parameters =
  sm_type :: string
  sm_smoothing_range :: double
  sm_degree :: nat
  sm_eig_cg_n_iterations :: nat

record coarse_solver_parameters =
  cs_type :: string
  cs_maxiter :: nat
  cs_abstol :: double
  cs_reltol :: double
  cs_smoother_sweeps :: nat
  cs_n_cycles :: nat
  cs_smoother_type :: string

record mg_solver_parameters =
  smoother :: smoother_parameters
  coarse_solver :: coarse_solver_parameters
  estimate_eigenvalues :: bool
  log_levels :: bool

subsection \<open>Smoother configuration (\<open>PreconditionChebyshev::AdditionalData\<close>)\<close>

text \<open>
  The preconditioner of a smoother is a shared pointer: null in a default-constructed
  configuration, the entry of \<open>mg_smoother_preconditioners\<close> for a level, or a fresh
  diagonal matrix filled with the inverse diagonal of a level operator.
\<close>

datatype preconditioner_ref =
    NullPreconditioner
  | SmootherPreconditioner nat
  | InverseDiagonal nat

record additional_data =
  preconditioner :: preconditioner_ref
  smoothing_range :: double
  degree :: nat
  eig_cg_n_iterations :: nat
  max_eigenvalue :: double

subsection \<open>Timer signals of the cycle engine\<close>

text \<open>
  The cycle engine has seven signals; \<open>mg_solve\<close> connects one callback to each, created
  with the index and label given here (lines 237 to 243).
\<close>

datatype stage =
    PreSmootherStep
  | ResidualStep
  | Restriction
  | CoarseSolve
  | Prolongation
  | EdgeProlongation
  | PostSmootherStep

fun stage_index :: "stage \<Rightarrow> nat" where
  "stage_index PreSmootherStep = 0"
| "stage_index ResidualStep = 1"
| "stage_index Restriction = 2"
| "stage_index CoarseSolve = 3"
| "stage_index Prolongation = 4"
| "stage_index EdgeProlongation = 5"
| "stage_index PostSmootherStep = 6"

fun stage_label :: "stage \<Rightarrow> string" where
  "stage_label PreSmootherStep = ''pre_smoother_step''"
| "stage_label ResidualStep = ''residual_step''"
| "stage_label Restriction = ''restriction''"
| "stage_label CoarseSolve = ''coarse_solve''"
| "stage_label Prolongation = ''prolongation''"
| "stage_label EdgeProlongation = ''edge_prolongation''"
| "stage_label PostSmootherStep = ''post_smoother_step''"

definition all_stages :: "stage list" where
  "all_stages = [PreSmootherStep, ResidualStep, Restriction, CoarseSolve, Prolongation,
     EdgeProlongation, PostSmootherStep]"

text \<open>
  One firing of a signal: the stage, the arguments \<open>flag\<close> (true at the start of the
  stage, false at its end) and \<open>level\<close>, and what \<open>system_clock::now()\<close> returns inside
  the callback, in nanoseconds since the epoch.
\<close>

record signal =
  sig_stage :: stage
  sig_flag :: bool
  sig_level :: nat
  sig_now :: int

text \<open>
  A timer is the pair of the source: \<open>first\<close> the accumulated seconds, \<open>second\<close> the
  time point of the last start. \<open>all_mg_timers[level][i]\<close> is a list of lists of them.
\<close>

type_synonym timer = "real \<times> int"

subsection \<open>The table (\<open>ConvergenceTable\<close>)\<close>

datatype cell = UIntCell nat | DoubleCell double

type_synonym table = "(string \<times> cell list) list"

text \<open>
  \<open>add_value\<close> appends to the column of that name and opens the column at the right
  when the table does not have it yet.
\<close>

fun add_value :: "string \<Rightarrow> cell \<Rightarrow> table \<Rightarrow> table" where
  "add_value key v [] = [(key, [v])]"
| "add_value key v ((k, col) # t) =
     (if k = key then (k, col @ [v]) # t else (k, col) # add_value key v t)"

subsection \<open>Events, failures, input and state\<close>

datatype coarse_kind = WithIdentity | WithChebyshev | WithAMG

datatype event =
    LevelMatricesWrapped
  | ChebyshevInitialize nat additional_data
  | InitializeDofVector nat
  | EstimateEigenvalues nat
  | PrintMaxEV double
  | TableMaxEV double
  | SmootherInitialize "additional_data list"
  | ReductionControlCreated nat double double
  | ComputeInverseDiagonal nat
  | CoarseChebyshevInitialize nat additional_data
  | AMGInitialize nat nat nat string
  | CoarseGridSolverCreated coarse_kind nat
  | MultigridCreated
  | TimerConnected nat string
  | PreconditionerCreated
  | OuterSolve
  | TableWritten string table

text \<open>
  \<open>ExcNotImplemented\<close> is what the three \<open>AssertThrow\<close> of the function throw.
  \<open>UndefinedBehaviour\<close> stands for a read or write past the end of a \<open>std::vector\<close>,
  where the source has no defined behaviour.
\<close>

datatype failure = ExcNotImplemented | UndefinedBehaviour

record mg_input =
  mg_data :: mg_solver_parameters
  min_level :: nat
  max_level :: nat
  default_additional_data :: additional_data
  chebyshev_estimates :: "nat \<Rightarrow> double \<times> double"
  signals :: "signal list"
  this_mpi_process :: nat
  filename_mg_level :: string

record mg_state =
  trace :: "event list"
  smoother_data :: "additional_data list"
  min_eigenvalues :: "double list"
  max_eigenvalues :: "double list"
  all_mg_timers :: "timer list list"

definition levels_ok :: "mg_input \<Rightarrow> bool" where
  "levels_ok inp \<longleftrightarrow> min_level inp \<le> max_level inp \<and> max_level inp < 2 ^ 32 - 1"

definition emit :: "event list \<Rightarrow> mg_state \<Rightarrow> mg_state" where
  "emit es s = s\<lparr>trace := trace s @ es\<rparr>"

subsection \<open>The two forms of \<open>for\<close> statement\<close>

text \<open>\<open>for (level = a; level <= b; level++) body\<close>\<close>

function for_upto :: "nat \<Rightarrow> nat \<Rightarrow> (nat \<Rightarrow> 's \<Rightarrow> 's) \<Rightarrow> 's \<Rightarrow> 's" where
  "for_upto level b body s =
     (if level \<le> b then for_upto (Suc level) b body (body level s) else s)"
  by pat_completeness auto
termination
  by (relation "measure (\<lambda>(level, b, body, s). Suc b - level)") auto

text \<open>\<open>for (i = a; i < n; ++i) body\<close>\<close>

function for_below :: "nat \<Rightarrow> nat \<Rightarrow> (nat \<Rightarrow> 's \<Rightarrow> 's) \<Rightarrow> 's \<Rightarrow> 's" where
  "for_below i n body s =
     (if i < n then for_below (Suc i) n body (body i s) else s)"
  by pat_completeness auto
termination
  by (relation "measure (\<lambda>(i, n, body, s). n - i)") auto

declare for_upto.simps [simp del]
declare for_below.simps [simp del]

subsection \<open>Lines 86 to 94: one smoother configuration per level\<close>

text \<open>
  \<open>smoother_data\<close> is an \<open>MGLevelObject\<close> over \<open>min_level..max_level\<close>: the entry of
  a level sits at position \<open>level - min_level\<close> of the underlying list.
\<close>

definition init_smoother_level :: "mg_input \<Rightarrow> nat \<Rightarrow> mg_state \<Rightarrow> mg_state" where
  "init_smoother_level inp level s =
     s\<lparr>smoother_data := (smoother_data s)[level - min_level inp :=
         (smoother_data s ! (level - min_level inp))
           \<lparr>preconditioner := SmootherPreconditioner level,
            smoothing_range := sm_smoothing_range (smoother (mg_data inp)),
            degree := sm_degree (smoother (mg_data inp)),
            eig_cg_n_iterations := sm_eig_cg_n_iterations (smoother (mg_data inp))\<rparr>]\<rparr>"

definition init_smoothers :: "mg_input \<Rightarrow> mg_state \<Rightarrow> mg_state" where
  "init_smoothers inp s =
     for_upto (min_level inp) (max_level inp) (init_smoother_level inp)
       (s\<lparr>smoother_data :=
            replicate (max_level inp - min_level inp + 1) (default_additional_data inp)\<rparr>)"

subsection \<open>Lines 100 to 125: eigenvalue estimation\<close>

definition estimate_level :: "mg_input \<Rightarrow> nat \<Rightarrow> mg_state \<Rightarrow> mg_state" where
  "estimate_level inp level s =
     (let sd = smoother_data s ! (level - min_level inp);
          evs = chebyshev_estimates inp level
      in s\<lparr>trace := trace s @
              [ChebyshevInitialize level sd, InitializeDofVector level,
               EstimateEigenvalues level],
            min_eigenvalues := (min_eigenvalues s)[level := fst evs],
            max_eigenvalues := (max_eigenvalues s)[level := snd evs],
            smoother_data := (smoother_data s)[level - min_level inp :=
              sd\<lparr>eig_cg_n_iterations := 0,
                 max_eigenvalue := dmul (snd evs) (Val (11 / 10))\<rparr>]\<rparr>)"

text \<open>
  \<open>std::max_element(first, last)\<close> with \<open>operator<\<close>: the first element is the
  candidate, and a later element replaces it when the candidate is less than it. On the
  empty range it returns \<open>last\<close>, which must not be dereferenced.
\<close>

fun max_element_from :: "double \<Rightarrow> double list \<Rightarrow> double" where
  "max_element_from largest [] = largest"
| "max_element_from largest (x # xs) =
     max_element_from (if dless largest x then x else largest) xs"

fun max_element :: "double list \<Rightarrow> double option" where
  "max_element [] = None"
| "max_element (x # xs) = Some (max_element_from x xs)"

definition estimate_phase :: "mg_input \<Rightarrow> mg_state \<Rightarrow> failure option \<times> mg_state" where
  "estimate_phase inp s0 =
     (let s = s0\<lparr>min_eigenvalues := replicate (max_level inp + 1) NaN,
                 max_eigenvalues := replicate (max_level inp + 1) NaN\<rparr>
      in if estimate_eigenvalues (mg_data inp) then
           (let s' = for_upto (min_level inp + 1) (max_level inp) (estimate_level inp) s
            in case max_element (tl (max_eigenvalues s')) of
                 None \<Rightarrow> (Some UndefinedBehaviour, s')
               | Some m \<Rightarrow> (None, emit [PrintMaxEV m, TableMaxEV m] s'))
         else (None, s))"

subsection \<open>Lines 131 to 206: the coarse-grid solver\<close>

text \<open>
  The first argument says whether the build has \<open>DEAL_II_WITH_TRILINOS\<close>.
\<close>

definition coarse_phase :: "bool \<Rightarrow> mg_input \<Rightarrow> mg_state \<Rightarrow> failure option \<times> mg_state" where
  "coarse_phase with_trilinos inp s0 =
     (let cs = coarse_solver (mg_data inp);
          sm = smoother (mg_data inp);
          lo = min_level inp;
          s = emit [ReductionControlCreated (cs_maxiter cs) (cs_abstol cs) (cs_reltol cs)] s0
      in if cs_type cs = ''cg'' then
           (None, emit [CoarseGridSolverCreated WithIdentity lo] s)
         else if cs_type cs = ''cg_with_chebyshev'' then
           (None, emit [ComputeInverseDiagonal lo,
                       CoarseChebyshevInitialize lo
                         ((default_additional_data inp)
                            \<lparr>preconditioner := InverseDiagonal lo,
                             smoothing_range := sm_smoothing_range sm,
                             degree := sm_degree sm,
                             eig_cg_n_iterations := sm_eig_cg_n_iterations sm\<rparr>),
                       CoarseGridSolverCreated WithChebyshev lo] s)
         else if cs_type cs = ''cg_with_amg'' then
           (if with_trilinos then
              (None, emit [AMGInitialize lo (cs_smoother_sweeps cs) (cs_n_cycles cs)
                            (cs_smoother_type cs),
                          CoarseGridSolverCreated WithAMG lo] s)
            else (Some ExcNotImplemented, s))
         else (Some ExcNotImplemented, s))"

subsection \<open>Lines 214 to 244: the timers and their callbacks\<close>

definition init_timers :: "nat \<Rightarrow> timer list list" where
  "init_timers n =
     for_below 0 n (\<lambda>i ts. ts[i := replicate 7 (0, 0)]) (replicate n [])"

text \<open>
  The callback made by \<open>create_mg_timer_function(i, label)\<close>, called with \<open>flag\<close> and
  \<open>level\<close> while the clock reads \<open>now\<close>. The vector is indexed with the level as the
  engine passes it.
\<close>

definition mg_timer_function ::
  "nat \<Rightarrow> bool \<Rightarrow> nat \<Rightarrow> int \<Rightarrow> timer list list \<Rightarrow> failure + timer list list" where
  "mg_timer_function i flag level now timers =
     (if level < length timers \<and> i < length (timers ! level) then
        (let t = timers ! level ! i
         in if flag then
              Inr (timers[level := (timers ! level)[i := (fst t, now)]])
            else
              Inr (timers[level := (timers ! level)
                     [i := (fst t + real_of_int (now - snd t) / 1000000000, snd t)]]))
      else Inl UndefinedBehaviour)"

definition fire :: "signal \<Rightarrow> timer list list \<Rightarrow> failure + timer list list" where
  "fire sg timers =
     mg_timer_function (stage_index (sig_stage sg)) (sig_flag sg) (sig_level sg)
       (sig_now sg) timers"

fun run_signals :: "signal list \<Rightarrow> timer list list \<Rightarrow> failure + timer list list" where
  "run_signals [] timers = Inr timers"
| "run_signals (sg # sgs) timers =
     (case fire sg timers of Inl e \<Rightarrow> Inl e | Inr timers' \<Rightarrow> run_signals sgs timers')"

definition timer_phase :: "mg_input \<Rightarrow> mg_state \<Rightarrow> mg_state" where
  "timer_phase inp s0 =
     (let s = (emit [MultigridCreated] s0)
                \<lparr>all_mg_timers := init_timers (max_level inp - min_level inp + 1)\<rparr>
      in if log_levels (mg_data inp) then
           emit (map (\<lambda>st. TimerConnected (stage_index st) (stage_label st)) all_stages) s
         else s)"

subsection \<open>Lines 247 to 251: the outer solve\<close>

text \<open>
  The callbacks run only when they were connected; otherwise the signals of the engine
  reach nobody.
\<close>

definition solve_phase :: "mg_input \<Rightarrow> mg_state \<Rightarrow> failure option \<times> mg_state" where
  "solve_phase inp s0 =
     (let s = emit [PreconditionerCreated, OuterSolve] s0
      in if log_levels (mg_data inp) then
           (case run_signals (signals inp) (all_mg_timers s) of
              Inl e \<Rightarrow> (Some e, s)
            | Inr timers \<Rightarrow> (None, s\<lparr>all_mg_timers := timers\<rparr>))
         else (None, s))"

subsection \<open>Lines 255 to 277: the table\<close>

definition table_row :: "mg_input \<Rightarrow> mg_state \<Rightarrow> nat \<Rightarrow> table \<Rightarrow> table" where
  "table_row inp s level t0 =
     (let row = all_mg_timers s ! level;
          t = add_value ''post_smoother_step'' (DoubleCell (Val (fst (row ! 6))))
             (add_value ''edge_prolongation'' (DoubleCell (Val (fst (row ! 5))))
             (add_value ''prolongation'' (DoubleCell (Val (fst (row ! 4))))
             (add_value ''coarse_solve'' (DoubleCell (Val (fst (row ! 3))))
             (add_value ''restriction'' (DoubleCell (Val (fst (row ! 2))))
             (add_value ''residual_step'' (DoubleCell (Val (fst (row ! 1))))
             (add_value ''pre_smoother_step'' (DoubleCell (Val (fst (row ! 0))))
             (add_value ''level'' (UIntCell level) t0)))))))
      in if estimate_eigenvalues (mg_data inp) then
           add_value ''max_eigenvalue'' (DoubleCell (max_eigenvalues s ! level))
             (add_value ''min_eigenvalue'' (DoubleCell (min_eigenvalues s ! level)) t)
         else t)"

definition level_table :: "mg_input \<Rightarrow> mg_state \<Rightarrow> table" where
  "level_table inp s = for_below 0 (length (all_mg_timers s)) (table_row inp s) []"

definition table_phase :: "mg_input \<Rightarrow> mg_state \<Rightarrow> mg_state" where
  "table_phase inp s =
     (if log_levels (mg_data inp) \<and> this_mpi_process inp = 0 then
        emit [TableWritten (filename_mg_level inp) (level_table inp s)] s
      else s)"

subsection \<open>The function\<close>

definition initial_state :: mg_state where
  "initial_state =
     \<lparr>trace = [], smoother_data = [], min_eigenvalues = [], max_eigenvalues = [],
      all_mg_timers = []\<rparr>"

text \<open>
  The result is the failure that ended the call, if any, and the state reached: the
  trace of what was done and the local variables of the function at that point.
\<close>

definition mg_solve :: "bool \<Rightarrow> mg_input \<Rightarrow> failure option \<times> mg_state" where
  "mg_solve with_trilinos inp =
     (if sm_type (smoother (mg_data inp)) \<noteq> ''chebyshev'' then
        (Some ExcNotImplemented, initial_state)
      else
        (let s1 = init_smoothers inp (emit [LevelMatricesWrapped] initial_state)
         in case estimate_phase inp s1 of
              (Some e, s2) \<Rightarrow> (Some e, s2)
            | (None, s2) \<Rightarrow>
                (let s3 = emit [SmootherInitialize (smoother_data s2)] s2
                 in case coarse_phase with_trilinos inp s3 of
                      (Some e, s4) \<Rightarrow> (Some e, s4)
                    | (None, s4) \<Rightarrow>
                        (case solve_phase inp (timer_phase inp s4) of
                           (Some e, s5) \<Rightarrow> (Some e, s5)
                         | (None, s5) \<Rightarrow> (None, table_phase inp s5)))))"

subsection \<open>Vocabulary of the statements\<close>

text \<open>The levels on which the estimator ran, in the order of the trace.\<close>

fun estimated_levels :: "event list \<Rightarrow> nat list" where
  "estimated_levels [] = []"
| "estimated_levels (EstimateEigenvalues l # es) = l # estimated_levels es"
| "estimated_levels (_ # es) = estimated_levels es"

text \<open>
  The events of lines 83 to 137: everything \<open>mg_solve\<close> does before it looks at the
  name of the coarse-grid solver on line 149.
\<close>

fun before_dispatch :: "event \<Rightarrow> bool" where
  "before_dispatch LevelMatricesWrapped = True"
| "before_dispatch (ChebyshevInitialize l d) = True"
| "before_dispatch (InitializeDofVector l) = True"
| "before_dispatch (EstimateEigenvalues l) = True"
| "before_dispatch (PrintMaxEV m) = True"
| "before_dispatch (TableMaxEV m) = True"
| "before_dispatch (SmootherInitialize ds) = True"
| "before_dispatch (ReductionControlCreated n a r) = True"
| "before_dispatch _ = False"

text \<open>
  What lines 90 to 93 write into the configuration of a level, and what lines 117 and 118
  write after the estimation of a level.
\<close>

definition configured :: "mg_input \<Rightarrow> nat \<Rightarrow> additional_data \<Rightarrow> additional_data" where
  "configured inp level d =
     d\<lparr>preconditioner := SmootherPreconditioner level,
       smoothing_range := sm_smoothing_range (smoother (mg_data inp)),
       degree := sm_degree (smoother (mg_data inp)),
       eig_cg_n_iterations := sm_eig_cg_n_iterations (smoother (mg_data inp))\<rparr>"

definition estimated :: "mg_input \<Rightarrow> nat \<Rightarrow> additional_data \<Rightarrow> additional_data" where
  "estimated inp level d =
     d\<lparr>eig_cg_n_iterations := 0,
       max_eigenvalue := dmul (snd (chebyshev_estimates inp level)) (Val (11 / 10))\<rparr>"

text \<open>The levels the loop of line 104 visits; none when estimation is switched off.\<close>

definition estimation_levels :: "mg_input \<Rightarrow> nat list" where
  "estimation_levels inp =
     (if estimate_eigenvalues (mg_data inp) then [min_level inp + 1..<Suc (max_level inp)]
      else [])"

text \<open>
  The events of the estimation block, lines 102 to 125, and the configurations the
  production smoother was initialised with on line 129, in the order of the trace.
\<close>

fun estimation_event :: "event \<Rightarrow> bool" where
  "estimation_event (ChebyshevInitialize l d) = True"
| "estimation_event (InitializeDofVector l) = True"
| "estimation_event (EstimateEigenvalues l) = True"
| "estimation_event (PrintMaxEV m) = True"
| "estimation_event (TableMaxEV m) = True"
| "estimation_event _ = False"

fun smoother_initializations :: "event list \<Rightarrow> additional_data list list" where
  "smoother_initializations [] = []"
| "smoother_initializations (SmootherInitialize ds # es) = ds # smoother_initializations es"
| "smoother_initializations (_ # es) = smoother_initializations es"

text \<open>
  The clock readings of a sequence of signals never go back, starting from \<open>t\<close>; and
  the last reading of the sequence. The time point of a fresh timer is the epoch, \<open>0\<close>.
\<close>

fun clock_steady :: "int \<Rightarrow> signal list \<Rightarrow> bool" where
  "clock_steady t [] = True"
| "clock_steady t (sg # sgs) = (t \<le> sig_now sg \<and> clock_steady (sig_now sg) sgs)"

fun clock_after :: "int \<Rightarrow> signal list \<Rightarrow> int" where
  "clock_after t [] = t"
| "clock_after t (sg # sgs) = clock_after (sig_now sg) sgs"

text \<open>
  Every start stamp in the timers is no later than \<open>t\<close>; and the timers \<open>T'\<close> have
  the shape of \<open>T\<close> and no accumulator of \<open>T'\<close> is below the one of \<open>T\<close>.
\<close>

definition started_by :: "int \<Rightarrow> timer list list \<Rightarrow> bool" where
  "started_by t T \<longleftrightarrow> (\<forall>l < length T. \<forall>i < length (T ! l). snd (T ! l ! i) \<le> t)"

definition grown :: "timer list list \<Rightarrow> timer list list \<Rightarrow> bool" where
  "grown T T' \<longleftrightarrow>
     length T' = length T
     \<and> (\<forall>l < length T. length (T' ! l) = length (T ! l)
           \<and> (\<forall>i < length (T ! l). fst (T ! l ! i) \<le> fst (T' ! l ! i)))"

text \<open>
  The names the dispatch of lines 149 to 206 accepts in a build with or without
  \<open>DEAL_II_WITH_TRILINOS\<close>.
\<close>

definition coarse_type_supported :: "bool \<Rightarrow> mg_input \<Rightarrow> bool" where
  "coarse_type_supported with_trilinos inp \<longleftrightarrow>
     cs_type (coarse_solver (mg_data inp)) = ''cg''
     \<or> cs_type (coarse_solver (mg_data inp)) = ''cg_with_chebyshev''
     \<or> (cs_type (coarse_solver (mg_data inp)) = ''cg_with_amg'' \<and> with_trilinos)"

text \<open>The accumulated seconds of stage \<open>i\<close> on row \<open>level\<close> of the timers.\<close>

definition accumulator :: "mg_state \<Rightarrow> nat \<Rightarrow> nat \<Rightarrow> real" where
  "accumulator s level i = fst (all_mg_timers s ! level ! i)"

text \<open>A signal at the start of a stage, and one at its end.\<close>

definition start_at :: "stage \<Rightarrow> nat \<Rightarrow> int \<Rightarrow> signal" where
  "start_at st level t = \<lparr>sig_stage = st, sig_flag = True, sig_level = level, sig_now = t\<rparr>"

definition stop_at :: "stage \<Rightarrow> nat \<Rightarrow> int \<Rightarrow> signal" where
  "stop_at st level t = \<lparr>sig_stage = st, sig_flag = False, sig_level = level, sig_now = t\<rparr>"

text \<open>
  The reading of the clock at the last start signal of a stage on a level among the
  signals so far, or \<open>t\<close> when there is none; and the seconds a signal measures
  against it, counted from the epoch when the stage never started on that level.
\<close>

fun start_stamp :: "int \<Rightarrow> stage \<Rightarrow> nat \<Rightarrow> signal list \<Rightarrow> int" where
  "start_stamp t st level [] = t"
| "start_stamp t st level (sg # sgs) =
     start_stamp (if sig_flag sg \<and> sig_stage sg = st \<and> sig_level sg = level
                  then sig_now sg else t) st level sgs"

definition elapsed_seconds :: "signal \<Rightarrow> signal list \<Rightarrow> real" where
  "elapsed_seconds sg before =
     real_of_int (sig_now sg - start_stamp 0 (sig_stage sg) (sig_level sg) before)
       / 1000000000"

text \<open>The timers have \<open>n\<close> rows of seven entries each.\<close>

definition rows_of_seven :: "nat \<Rightarrow> timer list list \<Rightarrow> bool" where
  "rows_of_seven n T \<longleftrightarrow> length T = n \<and> (\<forall>l < n. length (T ! l) = 7)"

text \<open>The cells of the column of a table with a given name; none when it has no such column.\<close>

definition column :: "table \<Rightarrow> string \<Rightarrow> cell list" where
  "column t key = (case map_of t key of None \<Rightarrow> [] | Some col \<Rightarrow> col)"

subsection \<open>Sample runs\<close>

text \<open>
  Concrete inputs on which the theorems below are exercised: a two-level hierarchy
  starting at level \<open>lo\<close>, with eigenvalue estimation and per-level logging switched on,
  on process 0. The estimator is taken to return \<open>1/2\<close> and the level number.
\<close>

definition sample_parameters :: mg_solver_parameters where
  "sample_parameters =
     \<lparr>smoother = \<lparr>sm_type = ''chebyshev'', sm_smoothing_range = Val 20, sm_degree = 5,
                  sm_eig_cg_n_iterations = 20\<rparr>,
      coarse_solver = \<lparr>cs_type = ''cg_with_amg'', cs_maxiter = 10000,
                       cs_abstol = Val (1 / 10 ^ 20), cs_reltol = Val (1 / 10 ^ 4),
                       cs_smoother_sweeps = 1, cs_n_cycles = 1,
                       cs_smoother_type = ''ILU''\<rparr>,
      estimate_eigenvalues = True,
      log_levels = True\<rparr>"

definition sample_input :: "nat \<Rightarrow> signal list \<Rightarrow> mg_input" where
  "sample_input lo sgs =
     \<lparr>mg_data = sample_parameters,
      min_level = lo,
      max_level = lo + 1,
      default_additional_data =
        \<lparr>preconditioner = NullPreconditioner, smoothing_range = Val 0, degree = 1,
         eig_cg_n_iterations = 8, max_eigenvalue = Val 1\<rparr>,
      chebyshev_estimates = (\<lambda>level. (Val (1 / 2), Val (real level))),
      signals = sgs,
      this_mpi_process = 0,
      filename_mg_level = ''mg_level.log''\<rparr>"

text \<open>The same input with another smoother name, or another coarse-grid solver name.\<close>

definition with_smoother_type :: "string \<Rightarrow> mg_input \<Rightarrow> mg_input" where
  "with_smoother_type name inp =
     inp\<lparr>mg_data := (mg_data inp)\<lparr>smoother := (smoother (mg_data inp))\<lparr>sm_type := name\<rparr>\<rparr>\<rparr>"

definition with_coarse_type :: "string \<Rightarrow> mg_input \<Rightarrow> mg_input" where
  "with_coarse_type name inp =
     inp\<lparr>mg_data :=
       (mg_data inp)\<lparr>coarse_solver := (coarse_solver (mg_data inp))\<lparr>cs_type := name\<rparr>\<rparr>\<rparr>"

definition with_log_levels :: "bool \<Rightarrow> mg_input \<Rightarrow> mg_input" where
  "with_log_levels b inp = inp\<lparr>mg_data := (mg_data inp)\<lparr>log_levels := b\<rparr>\<rparr>"

section \<open>Properties\<close>

subsection \<open>The \<open>for\<close> statements as folds over the levels they visit\<close>

lemma for_upto_fold: "for_upto a b f s = fold f [a..<Suc b] s"
proof (induction a b f s rule: for_upto.induct)
  case (1 level b body s)
  show ?case
  proof (cases "level \<le> b")
    case True
    then have "[level..<Suc b] = level # [Suc level..<Suc b]"
      by (simp add: upt_rec)
    with True 1 show ?thesis
      by (simp add: for_upto.simps [of level])
  next
    case False
    then show ?thesis
      by (simp add: for_upto.simps [of level])
  qed
qed

lemma for_below_fold: "for_below a n f s = fold f [a..<n] s"
proof (induction a n f s rule: for_below.induct)
  case (1 i n body s)
  show ?case
  proof (cases "i < n")
    case True
    then have "[i..<n] = i # [Suc i..<n]"
      by (simp add: upt_rec)
    with True 1 show ?thesis
      by (simp add: for_below.simps [of i])
  next
    case False
    then show ?thesis
      by (simp add: for_below.simps [of i])
  qed
qed

subsection \<open>The smoother name is checked first\<close>

text \<open>
  C6. If \<open>mg_data.smoother.type\<close> is any string other than "chebyshev", \<open>mg_solve\<close>
  fails with \<open>ExcNotImplemented\<close> as its first action: the call ends in the initial
  state, whose trace is empty, so no smoother setup, eigenvalue estimation, coarse-solver
  construction or outer iteration has been performed.
\<close>

theorem mg_solve_rejects_other_smoothers:
  "sm_type (smoother (mg_data inp)) \<noteq> ''chebyshev'' \<Longrightarrow>
     mg_solve with_trilinos inp = (Some ExcNotImplemented, initial_state)
     \<and> trace initial_state = []"
  by (simp add: mg_solve_def initial_state_def)

theorem mg_solve_rejects_other_smoothers_witness:
  "sm_type (smoother (mg_data (with_smoother_type ''jacobi'' (sample_input 0 []))))
     \<noteq> ''chebyshev''
   \<and> mg_solve True (with_smoother_type ''jacobi'' (sample_input 0 []))
     = (Some ExcNotImplemented, initial_state)
   \<and> trace initial_state = []"
  using mg_solve_rejects_other_smoothers
    [of "with_smoother_type ''jacobi'' (sample_input 0 [])" True]
  by (simp add: with_smoother_type_def sample_input_def sample_parameters_def)

subsection \<open>Lines 86 to 125, phase by phase\<close>

lemma estimated_levels_append:
  "estimated_levels (xs @ ys) = estimated_levels xs @ estimated_levels ys"
  by (induction xs rule: estimated_levels.induct) simp_all

lemma emit_simps [simp]:
  "trace (emit es s) = trace s @ es"
  "smoother_data (emit es s) = smoother_data s"
  "min_eigenvalues (emit es s) = min_eigenvalues s"
  "max_eigenvalues (emit es s) = max_eigenvalues s"
  "all_mg_timers (emit es s) = all_mg_timers s"
  by (simp_all add: emit_def)

lemma init_smoother_level_simps [simp]:
  "trace (init_smoother_level inp l s) = trace s"
  "min_eigenvalues (init_smoother_level inp l s) = min_eigenvalues s"
  "max_eigenvalues (init_smoother_level inp l s) = max_eigenvalues s"
  "all_mg_timers (init_smoother_level inp l s) = all_mg_timers s"
  "smoother_data (init_smoother_level inp l s) =
     (smoother_data s)[l - min_level inp :=
        configured inp l (smoother_data s ! (l - min_level inp))]"
  by (simp_all add: init_smoother_level_def configured_def)

lemma fold_init_frame:
  "trace (fold (init_smoother_level inp) ls s) = trace s
   \<and> min_eigenvalues (fold (init_smoother_level inp) ls s) = min_eigenvalues s
   \<and> max_eigenvalues (fold (init_smoother_level inp) ls s) = max_eigenvalues s
   \<and> all_mg_timers (fold (init_smoother_level inp) ls s) = all_mg_timers s
   \<and> length (smoother_data (fold (init_smoother_level inp) ls s)) = length (smoother_data s)"
  by (induction ls arbitrary: s) simp_all

lemma fold_init_data:
  assumes "\<forall>l \<in> set ls. min_level inp \<le> l" and "j < length (smoother_data s)"
  shows "smoother_data (fold (init_smoother_level inp) ls s) ! j =
           (if j + min_level inp \<in> set ls
            then configured inp (j + min_level inp) (smoother_data s ! j)
            else smoother_data s ! j)"
  using assms
proof (induction ls arbitrary: s)
  case Nil
  then show ?case by simp
next
  case (Cons l ls)
  have lo: "min_level inp \<le> l" using Cons.prems by simp
  let ?s1 = "init_smoother_level inp l s"
  have len: "j < length (smoother_data ?s1)" using Cons.prems by simp
  have rest: "\<forall>l \<in> set ls. min_level inp \<le> l" using Cons.prems by simp
  have ih: "smoother_data (fold (init_smoother_level inp) ls ?s1) ! j =
           (if j + min_level inp \<in> set ls
            then configured inp (j + min_level inp) (smoother_data ?s1 ! j)
            else smoother_data ?s1 ! j)"
    by (rule Cons.IH [OF rest len])
  show ?case
  proof (cases "j = l - min_level inp")
    case True
    then have jl: "j + min_level inp = l" using lo by simp
    have "smoother_data ?s1 ! j = configured inp l (smoother_data s ! j)"
      using True Cons.prems by simp
    moreover have "configured inp l (configured inp l (smoother_data s ! j))
                   = configured inp l (smoother_data s ! j)"
      by (simp add: configured_def)
    ultimately show ?thesis using ih jl by simp
  next
    case False
    then have jl: "j + min_level inp \<noteq> l" by auto
    have "smoother_data ?s1 ! j = smoother_data s ! j"
      using False by simp
    then show ?thesis using ih jl by simp
  qed
qed

lemma init_smoothers_frame [simp]:
  "trace (init_smoothers inp s) = trace s"
  "min_eigenvalues (init_smoothers inp s) = min_eigenvalues s"
  "max_eigenvalues (init_smoothers inp s) = max_eigenvalues s"
  "all_mg_timers (init_smoothers inp s) = all_mg_timers s"
  "length (smoother_data (init_smoothers inp s)) = max_level inp - min_level inp + 1"
  by (simp_all add: init_smoothers_def for_upto_fold fold_init_frame)

lemma init_smoothers_data:
  assumes "min_level inp \<le> l" and "l \<le> max_level inp"
  shows "smoother_data (init_smoothers inp s) ! (l - min_level inp) =
           configured inp l (default_additional_data inp)"
proof -
  let ?n = "max_level inp - min_level inp + 1"
  let ?s0 = "s\<lparr>smoother_data := replicate ?n (default_additional_data inp)\<rparr>"
  let ?ls = "[min_level inp..<Suc (max_level inp)]"
  have j: "l - min_level inp < length (smoother_data ?s0)" using assms by simp
  have all: "\<forall>k \<in> set ?ls. min_level inp \<le> k" by auto
  have shift: "l - min_level inp + min_level inp = l" using assms by simp
  have mem: "l \<in> set ?ls" using assms by auto
  have "l - min_level inp < ?n" using assms by simp
  then have dflt: "smoother_data ?s0 ! (l - min_level inp) = default_additional_data inp"
    by (simp del: replicate_Suc replicate.simps)
  have "smoother_data (fold (init_smoother_level inp) ?ls ?s0) ! (l - min_level inp) =
          configured inp l (default_additional_data inp)"
    using fold_init_data [OF all j] mem
    by (simp only: shift dflt if_True)
  then show ?thesis
    by (simp only: init_smoothers_def for_upto_fold)
qed

lemma estimate_level_simps [simp]:
  "trace (estimate_level inp l s) =
     trace s @ [ChebyshevInitialize l (smoother_data s ! (l - min_level inp)),
                InitializeDofVector l, EstimateEigenvalues l]"
  "min_eigenvalues (estimate_level inp l s) =
     (min_eigenvalues s)[l := fst (chebyshev_estimates inp l)]"
  "max_eigenvalues (estimate_level inp l s) =
     (max_eigenvalues s)[l := snd (chebyshev_estimates inp l)]"
  "all_mg_timers (estimate_level inp l s) = all_mg_timers s"
  "smoother_data (estimate_level inp l s) =
     (smoother_data s)[l - min_level inp :=
        estimated inp l (smoother_data s ! (l - min_level inp))]"
  by (simp_all add: estimate_level_def estimated_def Let_def)

lemma fold_estimate_frame:
  "all_mg_timers (fold (estimate_level inp) ls s) = all_mg_timers s
   \<and> length (smoother_data (fold (estimate_level inp) ls s)) = length (smoother_data s)
   \<and> length (min_eigenvalues (fold (estimate_level inp) ls s)) = length (min_eigenvalues s)
   \<and> length (max_eigenvalues (fold (estimate_level inp) ls s)) = length (max_eigenvalues s)"
  by (induction ls arbitrary: s) simp_all

lemma fold_estimate_max:
  "j < length (max_eigenvalues s) \<Longrightarrow>
     max_eigenvalues (fold (estimate_level inp) ls s) ! j =
       (if j \<in> set ls then snd (chebyshev_estimates inp j) else max_eigenvalues s ! j)"
proof (induction ls arbitrary: s)
  case Nil
  then show ?case by simp
next
  case (Cons l ls)
  then show ?case by (simp add: nth_list_update)
qed

lemma fold_estimate_min:
  "j < length (min_eigenvalues s) \<Longrightarrow>
     min_eigenvalues (fold (estimate_level inp) ls s) ! j =
       (if j \<in> set ls then fst (chebyshev_estimates inp j) else min_eigenvalues s ! j)"
proof (induction ls arbitrary: s)
  case Nil
  then show ?case by simp
next
  case (Cons l ls)
  then show ?case by (simp add: nth_list_update)
qed

lemma fold_estimate_data:
  assumes "\<forall>l \<in> set ls. min_level inp \<le> l" and "j < length (smoother_data s)"
  shows "smoother_data (fold (estimate_level inp) ls s) ! j =
           (if j + min_level inp \<in> set ls
            then estimated inp (j + min_level inp) (smoother_data s ! j)
            else smoother_data s ! j)"
  using assms
proof (induction ls arbitrary: s)
  case Nil
  then show ?case by simp
next
  case (Cons l ls)
  have lo: "min_level inp \<le> l" using Cons.prems by simp
  let ?s1 = "estimate_level inp l s"
  have len: "j < length (smoother_data ?s1)" using Cons.prems by simp
  have rest: "\<forall>l \<in> set ls. min_level inp \<le> l" using Cons.prems by simp
  have ih: "smoother_data (fold (estimate_level inp) ls ?s1) ! j =
           (if j + min_level inp \<in> set ls
            then estimated inp (j + min_level inp) (smoother_data ?s1 ! j)
            else smoother_data ?s1 ! j)"
    by (rule Cons.IH [OF rest len])
  show ?case
  proof (cases "j = l - min_level inp")
    case True
    then have jl: "j + min_level inp = l" using lo by simp
    have "smoother_data ?s1 ! j = estimated inp l (smoother_data s ! j)"
      using True Cons.prems by simp
    moreover have "estimated inp l (estimated inp l (smoother_data s ! j))
                   = estimated inp l (smoother_data s ! j)"
      by (simp add: estimated_def)
    ultimately show ?thesis using ih jl by simp
  next
    case False
    then have jl: "j + min_level inp \<noteq> l" by auto
    have "smoother_data ?s1 ! j = smoother_data s ! j"
      using False by simp
    then show ?thesis using ih jl by simp
  qed
qed

lemma max_element_None: "max_element xs = None \<longleftrightarrow> xs = []"
  by (cases xs) simp_all

lemma estimate_phase_fst:
  "fst (estimate_phase inp s) =
     (if estimate_eigenvalues (mg_data inp) \<and> max_level inp = 0
      then Some UndefinedBehaviour else None)"
proof (cases "estimate_eigenvalues (mg_data inp)")
  case False
  then show ?thesis by (simp add: estimate_phase_def)
next
  case True
  let ?s = "s\<lparr>min_eigenvalues := replicate (max_level inp + 1) NaN,
               max_eigenvalues := replicate (max_level inp + 1) NaN\<rparr>"
  let ?s' = "fold (estimate_level inp) [min_level inp + 1..<Suc (max_level inp)] ?s"
  have len: "length (max_eigenvalues ?s') = max_level inp + 1"
    using fold_estimate_frame [of inp _ ?s] by simp
  have "max_element (tl (max_eigenvalues ?s')) = None \<longleftrightarrow> max_level inp = 0"
    unfolding max_element_None using len
    by (cases "max_eigenvalues ?s'") auto
  with True show ?thesis
    by (auto simp add: estimate_phase_def for_upto_fold Let_def split: option.splits
        simp del: upt_Suc replicate_Suc)
qed

lemma estimate_phase_frame:
  "all_mg_timers (snd (estimate_phase inp s)) = all_mg_timers s"
  "length (smoother_data (snd (estimate_phase inp s))) = length (smoother_data s)"
  "length (min_eigenvalues (snd (estimate_phase inp s))) = max_level inp + 1"
  "length (max_eigenvalues (snd (estimate_phase inp s))) = max_level inp + 1"
  using fold_estimate_frame [of inp "[min_level inp + 1..<Suc (max_level inp)]"
      "s\<lparr>min_eigenvalues := replicate (max_level inp + 1) NaN,
         max_eigenvalues := replicate (max_level inp + 1) NaN\<rparr>"]
  by (auto simp add: estimate_phase_def for_upto_fold Let_def split: option.splits
      simp del: upt_Suc replicate_Suc)

lemma estimate_phase_max:
  assumes "j \<le> max_level inp"
  shows "max_eigenvalues (snd (estimate_phase inp s)) ! j =
           (if j \<in> set (estimation_levels inp) then snd (chebyshev_estimates inp j) else NaN)"
proof -
  let ?s = "s\<lparr>min_eigenvalues := replicate (max_level inp + 1) NaN,
               max_eigenvalues := replicate (max_level inp + 1) NaN\<rparr>"
  have j: "j < length (max_eigenvalues ?s)" using assms by simp
  have nan: "max_eigenvalues ?s ! j = NaN"
    using assms by (simp del: replicate_Suc)
  show ?thesis
    using fold_estimate_max [OF j, of inp "[min_level inp + 1..<Suc (max_level inp)]"] nan
    by (auto simp add: estimate_phase_def for_upto_fold Let_def estimation_levels_def
        split: option.splits simp del: upt_Suc replicate_Suc)
qed

lemma estimate_phase_min:
  assumes "j \<le> max_level inp"
  shows "min_eigenvalues (snd (estimate_phase inp s)) ! j =
           (if j \<in> set (estimation_levels inp) then fst (chebyshev_estimates inp j) else NaN)"
proof -
  let ?s = "s\<lparr>min_eigenvalues := replicate (max_level inp + 1) NaN,
               max_eigenvalues := replicate (max_level inp + 1) NaN\<rparr>"
  have j: "j < length (min_eigenvalues ?s)" using assms by simp
  have nan: "min_eigenvalues ?s ! j = NaN"
    using assms by (simp del: replicate_Suc)
  show ?thesis
    using fold_estimate_min [OF j, of inp "[min_level inp + 1..<Suc (max_level inp)]"] nan
    by (auto simp add: estimate_phase_def for_upto_fold Let_def estimation_levels_def
        split: option.splits simp del: upt_Suc replicate_Suc)
qed

lemma estimate_phase_data:
  assumes "j < length (smoother_data s)"
  shows "smoother_data (snd (estimate_phase inp s)) ! j =
           (if j + min_level inp \<in> set (estimation_levels inp)
            then estimated inp (j + min_level inp) (smoother_data s ! j)
            else smoother_data s ! j)"
proof -
  let ?s = "s\<lparr>min_eigenvalues := replicate (max_level inp + 1) NaN,
               max_eigenvalues := replicate (max_level inp + 1) NaN\<rparr>"
  let ?ls = "[min_level inp + 1..<Suc (max_level inp)]"
  have j: "j < length (smoother_data ?s)" using assms by simp
  have all: "\<forall>l \<in> set ?ls. min_level inp \<le> l" by auto
  show ?thesis
    using fold_estimate_data [OF all j]
    by (auto simp add: estimate_phase_def for_upto_fold Let_def estimation_levels_def
        split: option.splits simp del: upt_Suc replicate_Suc)
qed

lemma fold_estimate_trace:
  "\<exists>es. trace (fold (estimate_level inp) ls s) = trace s @ es
        \<and> list_all estimation_event es \<and> estimated_levels es = ls"
proof (induction ls arbitrary: s)
  case Nil
  show ?case by simp
next
  case (Cons l ls)
  obtain es where es: "trace (fold (estimate_level inp) ls (estimate_level inp l s))
                         = trace (estimate_level inp l s) @ es"
      "list_all estimation_event es" "estimated_levels es = ls"
    using Cons.IH by blast
  let ?step = "[ChebyshevInitialize l (smoother_data s ! (l - min_level inp)),
                InitializeDofVector l, EstimateEigenvalues l]"
  have "trace (fold (estimate_level inp) (l # ls) s) = trace s @ (?step @ es)"
    using es(1) by simp
  moreover have "list_all estimation_event (?step @ es)" using es(2) by simp
  moreover have "estimated_levels (?step @ es) = l # ls" using es(3) by simp
  ultimately show ?case by blast
qed

lemma estimate_phase_trace:
  "\<exists>es. trace (snd (estimate_phase inp s)) = trace s @ es
        \<and> list_all estimation_event es \<and> estimated_levels es = estimation_levels inp"
proof (cases "estimate_eigenvalues (mg_data inp)")
  case False
  then show ?thesis by (simp add: estimate_phase_def estimation_levels_def)
next
  case True
  let ?s = "s\<lparr>min_eigenvalues := replicate (max_level inp + 1) NaN,
               max_eigenvalues := replicate (max_level inp + 1) NaN\<rparr>"
  let ?ls = "[min_level inp + 1..<Suc (max_level inp)]"
  obtain es where es: "trace (fold (estimate_level inp) ?ls ?s) = trace ?s @ es"
      "list_all estimation_event es" "estimated_levels es = ?ls"
    using fold_estimate_trace by blast
  show ?thesis
  proof (cases "max_element (tl (max_eigenvalues (fold (estimate_level inp) ?ls ?s)))")
    case None
    with True es show ?thesis
      by (simp add: estimate_phase_def for_upto_fold Let_def estimation_levels_def
          del: upt_Suc replicate_Suc)
  next
    case (Some m)
    have "list_all estimation_event (es @ [PrintMaxEV m, TableMaxEV m])"
      using es(2) by simp
    moreover have "estimated_levels (es @ [PrintMaxEV m, TableMaxEV m]) = ?ls"
      using es(3) by (simp add: estimated_levels_append)
    moreover have "trace (snd (estimate_phase inp s))
                     = trace s @ (es @ [PrintMaxEV m, TableMaxEV m])"
      using True Some es(1)
      by (simp add: estimate_phase_def for_upto_fold Let_def del: upt_Suc replicate_Suc)
    ultimately show ?thesis
      using True unfolding estimation_levels_def by (metis (full_types))
  qed
qed

subsection \<open>The whole call\<close>

lemmas later_phases = coarse_phase_def timer_phase_def solve_phase_def table_phase_def
  Let_def all_stages_def case_prod_unfold option.case_eq_if

lemma smoother_initializations_append:
  "smoother_initializations (xs @ ys) =
     smoother_initializations xs @ smoother_initializations ys"
  by (induction xs rule: smoother_initializations.induct) simp_all

lemma estimated_levels_member:
  "EstimateEigenvalues l \<in> set es \<longleftrightarrow> l \<in> set (estimated_levels es)"
  by (induction es rule: estimated_levels.induct) auto

lemma estimation_events_before_dispatch:
  "list_all estimation_event es \<Longrightarrow> list_all before_dispatch es"
proof (induction es)
  case Nil
  show ?case by simp
next
  case (Cons e es)
  then show ?case by (cases e) simp_all
qed

lemma estimation_events_no_initialization:
  "list_all estimation_event es \<Longrightarrow> smoother_initializations es = []"
proof (induction es)
  case Nil
  show ?case by simp
next
  case (Cons e es)
  then show ?case by (cases e) simp_all
qed

lemma mg_solve_estimated_levels:
  assumes "sm_type (smoother (mg_data inp)) = ''chebyshev''"
  shows "estimated_levels (trace (snd (mg_solve tr inp))) = estimation_levels inp"
proof -
  let ?s1 = "init_smoothers inp (emit [LevelMatricesWrapped] initial_state)"
  let ?s2 = "snd (estimate_phase inp ?s1)"
  obtain es where es: "trace ?s2 = trace ?s1 @ es" "list_all estimation_event es"
      "estimated_levels es = estimation_levels inp"
    using estimate_phase_trace by blast
  have t2: "estimated_levels (trace ?s2) = estimation_levels inp"
    using es by (simp add: estimated_levels_append initial_state_def)
  have "estimated_levels (trace (snd (mg_solve tr inp))) = estimated_levels (trace ?s2)"
    using assms unfolding mg_solve_def
    by (simp add: later_phases estimated_levels_append split: sum.splits)
  with t2 show ?thesis by simp
qed

lemma mg_solve_eigenvalues:
  assumes "sm_type (smoother (mg_data inp)) = ''chebyshev''"
  shows "min_eigenvalues (snd (mg_solve tr inp)) =
           min_eigenvalues (snd (estimate_phase inp
             (init_smoothers inp (emit [LevelMatricesWrapped] initial_state))))"
    and "max_eigenvalues (snd (mg_solve tr inp)) =
           max_eigenvalues (snd (estimate_phase inp
             (init_smoothers inp (emit [LevelMatricesWrapped] initial_state))))"
    and "smoother_data (snd (mg_solve tr inp)) =
           smoother_data (snd (estimate_phase inp
             (init_smoothers inp (emit [LevelMatricesWrapped] initial_state))))"
  using assms unfolding mg_solve_def
  by (simp_all add: later_phases split: sum.splits)

lemma mg_solve_smoother_initializations:
  assumes "sm_type (smoother (mg_data inp)) = ''chebyshev''"
  shows "smoother_initializations (trace (snd (mg_solve tr inp))) =
           (if estimate_eigenvalues (mg_data inp) \<and> max_level inp = 0 then []
            else [smoother_data (snd (mg_solve tr inp))])"
proof -
  let ?s1 = "init_smoothers inp (emit [LevelMatricesWrapped] initial_state)"
  let ?s2 = "snd (estimate_phase inp ?s1)"
  obtain es where es: "trace ?s2 = trace ?s1 @ es" "list_all estimation_event es"
      "estimated_levels es = estimation_levels inp"
    using estimate_phase_trace by blast
  have t2: "smoother_initializations (trace ?s2) = []"
    using es estimation_events_no_initialization [OF es(2)]
    by (simp add: smoother_initializations_append initial_state_def)
  have "smoother_initializations (trace (snd (mg_solve tr inp))) =
          (if estimate_eigenvalues (mg_data inp) \<and> max_level inp = 0 then []
           else [smoother_data ?s2])"
    using assms t2 unfolding mg_solve_def
    by (simp add: later_phases estimate_phase_fst smoother_initializations_append
        split: sum.splits)
  then show ?thesis
    using mg_solve_eigenvalues(3) [OF assms] by simp
qed

lemma mg_solve_failed_dispatch:
  assumes "sm_type (smoother (mg_data inp)) = ''chebyshev''"
    and "fst (coarse_phase tr inp s) \<noteq> None" 
  shows "fst (mg_solve tr inp) \<noteq> None"
    and "list_all before_dispatch (trace (snd (mg_solve tr inp)))"
    and "(estimate_eigenvalues (mg_data inp) \<longrightarrow> 1 \<le> max_level inp) \<longrightarrow>
           fst (mg_solve tr inp) = Some ExcNotImplemented"
proof -
  let ?s1 = "init_smoothers inp (emit [LevelMatricesWrapped] initial_state)"
  let ?s2 = "snd (estimate_phase inp ?s1)"
  obtain es where es: "trace ?s2 = trace ?s1 @ es" "list_all estimation_event es"
      "estimated_levels es = estimation_levels inp"
    using estimate_phase_trace by blast
  have t2: "list_all before_dispatch (trace ?s2)"
    using es estimation_events_before_dispatch [OF es(2)]
    by (simp add: initial_state_def)
  have cf: "\<And>s'. fst (coarse_phase tr inp s') = Some ExcNotImplemented"
    using assms(2) by (simp add: coarse_phase_def Let_def split: if_splits)
  have ct: "\<And>s'. list_all before_dispatch (trace s') \<Longrightarrow>
              list_all before_dispatch (trace (snd (coarse_phase tr inp s')))"
    using assms(2) by (simp add: coarse_phase_def Let_def split: if_splits)
  show "fst (mg_solve tr inp) \<noteq> None"
    using assms(1) cf unfolding mg_solve_def
    by (simp add: case_prod_unfold option.case_eq_if Let_def)
  show "list_all before_dispatch (trace (snd (mg_solve tr inp)))"
    using assms(1) cf ct t2 unfolding mg_solve_def
    by (simp add: case_prod_unfold option.case_eq_if Let_def)
  show "(estimate_eigenvalues (mg_data inp) \<longrightarrow> 1 \<le> max_level inp) \<longrightarrow>
           fst (mg_solve tr inp) = Some ExcNotImplemented"
    using assms(1) cf unfolding mg_solve_def
    by (auto simp add: case_prod_unfold option.case_eq_if Let_def estimate_phase_fst)
qed

lemma estimation_events_only:
  "list_all estimation_event es \<Longrightarrow>
     TimerConnected i l \<notin> set es \<and> TableWritten f t \<notin> set es"
  by (auto simp add: list_all_iff)

lemma mg_solve_trace_before_timers:
  assumes "sm_type (smoother (mg_data inp)) = ''chebyshev''"
  shows "\<exists>es. trace (snd (estimate_phase inp
                 (init_smoothers inp (emit [LevelMatricesWrapped] initial_state))))
               = LevelMatricesWrapped # es
             \<and> list_all estimation_event es"
proof -
  let ?s1 = "init_smoothers inp (emit [LevelMatricesWrapped] initial_state)"
  obtain es where es: "trace (snd (estimate_phase inp ?s1)) = trace ?s1 @ es"
      "list_all estimation_event es"
    using estimate_phase_trace by blast
  then show ?thesis by (simp add: initial_state_def)
qed

subsection \<open>The timers\<close>

lemma fill_rows:
  "k \<le> n \<Longrightarrow>
     fold (\<lambda>i ts. ts[i := r]) [0..<k] (replicate n e) = replicate k r @ replicate (n - k) e"
proof (induction k)
  case 0
  show ?case by simp
next
  case (Suc k)
  then have k: "k < n" by simp
  then have split: "replicate (n - k) e = e # replicate (n - Suc k) e"
    by (cases "n - k") (simp_all add: Suc_diff_Suc)
  have "fold (\<lambda>i ts. ts[i := r]) [0..<Suc k] (replicate n e)
          = (replicate k r @ replicate (n - k) e)[k := r]"
    using Suc by simp
  also have "\<dots> = replicate k r @ (r # replicate (n - Suc k) e)"
    by (simp add: split list_update_append)
  also have "\<dots> = replicate (Suc k) r @ replicate (n - Suc k) e"
    by (simp add: replicate_append_same)
  finally show ?case .
qed

lemma init_timers_eq: "init_timers n = replicate n (replicate 7 (0, 0))"
proof -
  have "fold (\<lambda>i ts. ts[i := replicate 7 (0, 0)]) [0..<n] (replicate n [])
          = replicate n (replicate 7 (0::real, 0::int)) @ replicate (n - n) []"
    by (rule fill_rows) simp
  then show ?thesis
    by (simp only: init_timers_def for_below_fold diff_self_eq_0 replicate_0 append_Nil2)
qed

lemma grown_refl: "grown T T"
  by (simp add: grown_def)

lemma grown_trans:
  assumes "grown T1 T2" and "grown T2 T3"
  shows "grown T1 T3"
  unfolding grown_def
proof (intro conjI allI impI)
  show "length T3 = length T1" using assms by (simp add: grown_def)
next
  fix l assume l: "l < length T1"
  then show "length (T3 ! l) = length (T1 ! l)" using assms by (simp add: grown_def)
next
  fix l i assume l: "l < length T1" and i: "i < length (T1 ! l)"
  have "fst (T1 ! l ! i) \<le> fst (T2 ! l ! i)" using assms(1) l i by (simp add: grown_def)
  moreover have "fst (T2 ! l ! i) \<le> fst (T3 ! l ! i)"
    using assms l i by (simp add: grown_def)
  ultimately show "fst (T1 ! l ! i) \<le> fst (T3 ! l ! i)" by simp
qed

lemma fire_grows:
  assumes "fire sg T = Inr T'" and "started_by t T" and "t \<le> sig_now sg"
  shows "grown T T' \<and> started_by (sig_now sg) T'"
proof -
  let ?l = "sig_level sg" and ?i = "stage_index (sig_stage sg)" and ?now = "sig_now sg"
  have inb: "?l < length T" "?i < length (T ! ?l)"
    using assms(1) by (simp_all add: fire_def mg_timer_function_def split: if_splits)
  obtain acc st where cell: "T ! ?l ! ?i = (acc, st)" by (cases "T ! ?l ! ?i")
  have st: "st \<le> t" using assms(2) inb cell unfolding started_by_def by fastforce
  define c where "c = (if sig_flag sg then (acc, ?now)
                       else (acc + real_of_int (?now - st) / 1000000000, st))"
  have T': "T' = T[?l := (T ! ?l)[?i := c]]"
    using assms(1) inb cell unfolding c_def
    by (auto simp add: fire_def mg_timer_function_def Let_def)
  have acc_le: "acc \<le> fst c" using st assms(3) unfolding c_def by simp
  have st_le: "snd c \<le> ?now" using st assms(3) unfolding c_def by simp
  have old: "\<And>l i. l < length T \<Longrightarrow> i < length (T ! l) \<Longrightarrow> snd (T ! l ! i) \<le> ?now"
    using assms(2,3) unfolding started_by_def by fastforce
  have g: "grown T T'"
    unfolding grown_def T' using acc_le cell inb
    by (auto simp add: nth_list_update)
  have s: "started_by ?now T'"
    unfolding started_by_def T' using st_le old inb
    by (auto simp add: nth_list_update)
  from g s show ?thesis by simp
qed

lemma run_signals_grows:
  "run_signals sgs T = Inr T' \<Longrightarrow> started_by t T \<Longrightarrow> clock_steady t sgs \<Longrightarrow>
     grown T T' \<and> started_by (clock_after t sgs) T'"
proof (induction sgs arbitrary: T t)
  case Nil
  then show ?case by (simp add: grown_refl)
next
  case (Cons sg sgs)
  from Cons.prems(1) obtain T1 where T1: "fire sg T = Inr T1" "run_signals sgs T1 = Inr T'"
    by (auto split: sum.splits)
  have step: "grown T T1 \<and> started_by (sig_now sg) T1"
    using fire_grows [OF T1(1) Cons.prems(2)] Cons.prems(3) by simp
  have s1: "started_by (sig_now sg) T1" and g1: "grown T T1" using step by simp_all
  have c1: "clock_steady (sig_now sg) sgs" using Cons.prems(3) by simp
  have rest: "grown T1 T' \<and> started_by (clock_after (sig_now sg) sgs) T'"
    by (rule Cons.IH [OF T1(2) s1 c1])
  have "grown T T'" using g1 rest by (blast intro: grown_trans)
  then show ?case using rest by simp
qed

lemma run_signals_append:
  "run_signals (xs @ ys) T =
     (case run_signals xs T of Inl e \<Rightarrow> Inl e | Inr T1 \<Rightarrow> run_signals ys T1)"
  by (induction xs arbitrary: T) (simp_all split: sum.splits)

lemma clock_steady_append:
  "clock_steady t (xs @ ys) \<longleftrightarrow> clock_steady t xs \<and> clock_steady (clock_after t xs) ys"
  by (induction xs arbitrary: t) simp_all

lemma started_by_init: "started_by 0 (init_timers n)"
  by (simp add: started_by_def init_timers_eq)

lemma run_signals_prefix:
  assumes "clock_steady 0 (xs @ ys)" and "run_signals (xs @ ys) (init_timers n) = Inr T2"
  shows "\<exists>T1. run_signals xs (init_timers n) = Inr T1
              \<and> grown (init_timers n) T1 \<and> grown T1 T2"
proof -
  obtain T1 where T1: "run_signals xs (init_timers n) = Inr T1" "run_signals ys T1 = Inr T2"
    using assms(2) unfolding run_signals_append by (auto split: sum.splits)
  have cs: "clock_steady 0 xs" "clock_steady (clock_after 0 xs) ys"
    using assms(1) by (simp_all add: clock_steady_append)
  have a: "grown (init_timers n) T1 \<and> started_by (clock_after 0 xs) T1"
    using run_signals_grows [OF T1(1) started_by_init cs(1)] .
  have b: "grown T1 T2"
    using run_signals_grows [OF T1(2) _ cs(2)] a by simp
  from T1(1) a b show ?thesis by blast
qed

lemma stage_index_inj: "stage_index a = stage_index b \<longleftrightarrow> a = b"
  by (cases a; cases b) simp_all

lemma fire_effect:
  assumes "fire sg T = Inr T'"
  shows "sig_level sg < length T"
    and "stage_index (sig_stage sg) < length (T ! sig_level sg)"
    and "length T' = length T"
    and "\<And>l. l < length T \<Longrightarrow> length (T' ! l) = length (T ! l)"
    and "\<And>l i. l < length T \<Longrightarrow> i < length (T ! l) \<Longrightarrow>
           T' ! l ! i =
             (if l = sig_level sg \<and> i = stage_index (sig_stage sg)
              then (if sig_flag sg then (fst (T ! l ! i), sig_now sg)
                    else (fst (T ! l ! i)
                            + real_of_int (sig_now sg - snd (T ! l ! i)) / 1000000000,
                          snd (T ! l ! i)))
              else T ! l ! i)"
proof -
  let ?l = "sig_level sg" and ?i = "stage_index (sig_stage sg)"
  show inb: "?l < length T" "?i < length (T ! ?l)"
    using assms by (simp_all add: fire_def mg_timer_function_def split: if_splits)
  define c where "c = (if sig_flag sg then (fst (T ! ?l ! ?i), sig_now sg)
                       else (fst (T ! ?l ! ?i)
                               + real_of_int (sig_now sg - snd (T ! ?l ! ?i)) / 1000000000,
                             snd (T ! ?l ! ?i)))"
  have T': "T' = T[?l := (T ! ?l)[?i := c]]"
    using assms inb unfolding c_def
    by (auto simp add: fire_def mg_timer_function_def Let_def)
  show "length T' = length T" by (simp add: T')
  show "\<And>l. l < length T \<Longrightarrow> length (T' ! l) = length (T ! l)"
    using inb by (auto simp add: T' nth_list_update)
  show "\<And>l i. l < length T \<Longrightarrow> i < length (T ! l) \<Longrightarrow>
           T' ! l ! i =
             (if l = sig_level sg \<and> i = stage_index (sig_stage sg)
              then (if sig_flag sg then (fst (T ! l ! i), sig_now sg)
                    else (fst (T ! l ! i)
                            + real_of_int (sig_now sg - snd (T ! l ! i)) / 1000000000,
                          snd (T ! l ! i)))
              else T ! l ! i)"
    unfolding T' c_def using inb by (auto simp add: nth_list_update)
qed

lemma run_signals_stamps:
  "run_signals sgs T = Inr T' \<Longrightarrow> l < length T \<Longrightarrow> stage_index st < length (T ! l) \<Longrightarrow>
     snd (T' ! l ! stage_index st) = start_stamp (snd (T ! l ! stage_index st)) st l sgs"
proof (induction sgs arbitrary: T)
  case Nil
  then show ?case by simp
next
  case (Cons sg sgs)
  from Cons.prems(1) obtain T1 where T1: "fire sg T = Inr T1" "run_signals sgs T1 = Inr T'"
    by (auto split: sum.splits)
  have l1: "l < length T1" using fire_effect(3) [OF T1(1)] Cons.prems(2) by simp
  have i1: "stage_index st < length (T1 ! l)"
    using fire_effect(4) [OF T1(1) Cons.prems(2)] Cons.prems(3) by simp
  have step: "snd (T1 ! l ! stage_index st) =
                (if sig_flag sg \<and> sig_stage sg = st \<and> sig_level sg = l
                 then sig_now sg else snd (T ! l ! stage_index st))"
    using fire_effect(5) [OF T1(1) Cons.prems(2,3)]
    by (auto simp add: stage_index_inj)
  show ?case
    using Cons.IH [OF T1(2) l1 i1] step by simp
qed

subsection \<open>When the call returns\<close>

lemma coarse_phase_fst:
  "fst (coarse_phase tr inp s) =
     (if coarse_type_supported tr inp then None else Some ExcNotImplemented)"
  by (simp add: coarse_phase_def coarse_type_supported_def Let_def)

lemma mg_solve_returns_iff:
  "fst (mg_solve tr inp) = None \<longleftrightarrow>
     sm_type (smoother (mg_data inp)) = ''chebyshev''
     \<and> \<not> (estimate_eigenvalues (mg_data inp) \<and> max_level inp = 0)
     \<and> coarse_type_supported tr inp
     \<and> (log_levels (mg_data inp) \<longrightarrow>
          (\<exists>T. run_signals (signals inp)
                 (init_timers (max_level inp - min_level inp + 1)) = Inr T))"
  unfolding mg_solve_def
  by (auto simp add: case_prod_unfold option.case_eq_if Let_def estimate_phase_fst
      coarse_phase_fst solve_phase_def timer_phase_def emit_def split: sum.splits)

lemma mg_solve_timers:
  assumes "fst (mg_solve tr inp) = None"
  shows "if log_levels (mg_data inp)
         then run_signals (signals inp) (init_timers (max_level inp - min_level inp + 1))
                = Inr (all_mg_timers (snd (mg_solve tr inp)))
         else all_mg_timers (snd (mg_solve tr inp))
                = init_timers (max_level inp - min_level inp + 1)"
  using assms unfolding mg_solve_def
  by (auto simp add: case_prod_unfold option.case_eq_if Let_def estimate_phase_fst
      coarse_phase_fst solve_phase_def timer_phase_def table_phase_def emit_def
      split: sum.splits if_splits)

lemmas run_defs = mg_solve_def sample_input_def sample_parameters_def with_coarse_type_def
  with_smoother_type_def with_log_levels_def init_smoothers_def init_smoother_level_def
  estimate_phase_def estimate_level_def coarse_phase_def timer_phase_def solve_phase_def
  table_phase_def level_table_def table_row_def init_timers_def initial_state_def emit_def
  fire_def mg_timer_function_def all_stages_def Let_def for_upto.simps for_below.simps
  start_at_def stop_at_def accumulator_def

subsection \<open>The timer accumulators over one solve\<close>

text \<open>
  C8, as the code has it. Within one call of \<open>mg_solve\<close> with per-level logging
  enabled that runs to completion, and provided the readings of the system clock taken by
  the callbacks never go back and are not before the epoch: each of the seven
  accumulators of every row starts at zero and never decreases from one signal to the
  next. A stage-stop signal adds the elapsed time since the last start of its stage on its
  level, which is not negative, to the accumulator of its own (level, stage) pair and
  leaves every other accumulator as it was; a stage-start signal leaves every accumulator
  as it was. The timers after a prefix \<open>xs\<close> of the signals are those of the call that
  receives only \<open>xs\<close>.
\<close>

theorem stop_events_add_elapsed_time_under_steady_clock:
  assumes "log_levels (mg_data inp)"
    and "signals inp = xs @ zs"
    and "clock_steady 0 (signals inp)"
    and "fst (mg_solve tr inp) = None"
  shows "fst (mg_solve tr (inp\<lparr>signals := xs\<rparr>)) = None
         \<and> (\<forall>l i. l \<le> max_level inp - min_level inp \<and> i < 7 \<longrightarrow>
               accumulator (snd (mg_solve tr (inp\<lparr>signals := []\<rparr>))) l i = 0
             \<and> 0 \<le> accumulator (snd (mg_solve tr (inp\<lparr>signals := xs\<rparr>))) l i
             \<and> accumulator (snd (mg_solve tr (inp\<lparr>signals := xs\<rparr>))) l i
                 \<le> accumulator (snd (mg_solve tr inp)) l i)
         \<and> (\<forall>sg ys. zs = sg # ys \<longrightarrow>
               fst (mg_solve tr (inp\<lparr>signals := xs @ [sg]\<rparr>)) = None
             \<and> sig_level sg \<le> max_level inp - min_level inp
             \<and> stage_index (sig_stage sg) < 7
             \<and> 0 \<le> elapsed_seconds sg xs
             \<and> (\<forall>l i. l \<le> max_level inp - min_level inp \<and> i < 7 \<longrightarrow>
                   accumulator (snd (mg_solve tr (inp\<lparr>signals := xs @ [sg]\<rparr>))) l i =
                     (if \<not> sig_flag sg \<and> l = sig_level sg
                          \<and> i = stage_index (sig_stage sg)
                      then accumulator (snd (mg_solve tr (inp\<lparr>signals := xs\<rparr>))) l i
                             + elapsed_seconds sg xs
                      else accumulator (snd (mg_solve tr (inp\<lparr>signals := xs\<rparr>))) l i)))"
proof -
  let ?n = "max_level inp - min_level inp + 1"
  let ?ix = "inp\<lparr>signals := xs\<rparr>" and ?i0 = "inp\<lparr>signals := []\<rparr>"
  have ok: "sm_type (smoother (mg_data inp)) = ''chebyshev''"
      "\<not> (estimate_eigenvalues (mg_data inp) \<and> max_level inp = 0)"
      "coarse_type_supported tr inp"
    using assms(4) unfolding mg_solve_returns_iff by simp_all
  have T2: "run_signals (xs @ zs) (init_timers ?n) = Inr (all_mg_timers (snd (mg_solve tr inp)))"
    using mg_solve_timers [OF assms(4)] assms(1,2) by simp
  obtain T1 where T1: "run_signals xs (init_timers ?n) = Inr T1"
      "grown (init_timers ?n) T1" "grown T1 (all_mg_timers (snd (mg_solve tr inp)))"
    using run_signals_prefix [OF _ T2] assms(2,3) by auto
  have rx: "fst (mg_solve tr ?ix) = None"
    unfolding mg_solve_returns_iff using ok T1(1) by (simp add: coarse_type_supported_def)
  have r0: "fst (mg_solve tr ?i0) = None"
    unfolding mg_solve_returns_iff using ok by (simp add: coarse_type_supported_def)
  have tx: "all_mg_timers (snd (mg_solve tr ?ix)) = T1"
    using mg_solve_timers [OF rx] assms(1) T1(1) by simp
  have t0: "all_mg_timers (snd (mg_solve tr ?i0)) = init_timers ?n"
    using mg_solve_timers [OF r0] assms(1) by simp
  have shape0: "length (init_timers ?n) = ?n" "\<And>l. l < ?n \<Longrightarrow> length (init_timers ?n ! l) = 7"
    by (simp_all add: init_timers_eq del: replicate_Suc)
  have shape1: "length T1 = ?n" "\<And>l. l < ?n \<Longrightarrow> length (T1 ! l) = 7"
    using T1(2) shape0 unfolding grown_def by simp_all
  have cells: "accumulator (snd (mg_solve tr ?i0)) l i = 0
             \<and> 0 \<le> accumulator (snd (mg_solve tr ?ix)) l i
             \<and> accumulator (snd (mg_solve tr ?ix)) l i \<le> accumulator (snd (mg_solve tr inp)) l i"
    if l: "l \<le> max_level inp - min_level inp" and i: "i < 7" for l i
  proof -
    have ln: "l < ?n" using l by simp
    have z: "init_timers ?n ! l ! i = (0, 0)"
      using ln i by (simp add: init_timers_eq del: replicate_Suc)
    have len: "l < length (init_timers ?n)" "i < length (init_timers ?n ! l)"
      using ln i shape0 by simp_all
    have a: "fst (init_timers ?n ! l ! i) \<le> fst (T1 ! l ! i)"
      using T1(2) len unfolding grown_def by simp
    have len1: "l < length T1" "i < length (T1 ! l)"
      using ln i shape1 by simp_all
    have b: "fst (T1 ! l ! i) \<le> fst (all_mg_timers (snd (mg_solve tr inp)) ! l ! i)"
      using T1(3) len1 unfolding grown_def by simp
    show ?thesis
      using a b z by (simp add: accumulator_def tx t0)
  qed
  have event: "fst (mg_solve tr (inp\<lparr>signals := xs @ [sg]\<rparr>)) = None
             \<and> sig_level sg \<le> max_level inp - min_level inp
             \<and> stage_index (sig_stage sg) < 7
             \<and> 0 \<le> elapsed_seconds sg xs
             \<and> (\<forall>l i. l \<le> max_level inp - min_level inp \<and> i < 7 \<longrightarrow>
                   accumulator (snd (mg_solve tr (inp\<lparr>signals := xs @ [sg]\<rparr>))) l i =
                     (if \<not> sig_flag sg \<and> l = sig_level sg
                          \<and> i = stage_index (sig_stage sg)
                      then accumulator (snd (mg_solve tr ?ix)) l i + elapsed_seconds sg xs
                      else accumulator (snd (mg_solve tr ?ix)) l i))"
    if zs: "zs = sg # ys" for sg ys
  proof -
    let ?ia = "inp\<lparr>signals := xs @ [sg]\<rparr>"
    let ?L = "sig_level sg" and ?I = "stage_index (sig_stage sg)"
    have "run_signals (sg # ys) T1 = Inr (all_mg_timers (snd (mg_solve tr inp)))"
      using T2 T1(1) zs by (simp add: run_signals_append)
    then obtain Ta where Ta: "fire sg T1 = Inr Ta"
      by (auto split: sum.splits)
    have ra: "run_signals (xs @ [sg]) (init_timers ?n) = Inr Ta"
      using T1(1) Ta by (simp add: run_signals_append)
    have rs: "fst (mg_solve tr ?ia) = None"
      unfolding mg_solve_returns_iff using ok ra by (simp add: coarse_type_supported_def)
    have ta: "all_mg_timers (snd (mg_solve tr ?ia)) = Ta"
      using mg_solve_timers [OF rs] assms(1) ra by simp
    have L: "?L < ?n" using fire_effect(1) [OF Ta] shape1(1) by simp
    have I: "?I < 7" using fire_effect(2) [OF Ta] shape1(2) [OF L] by simp
    have stamp: "snd (T1 ! ?L ! ?I) = start_stamp 0 (sig_stage sg) ?L xs"
    proof -
      have "snd (init_timers ?n ! ?L ! ?I) = 0"
        using L I by (simp add: init_timers_eq del: replicate_Suc)
      moreover have "?L < length (init_timers ?n)" "?I < length (init_timers ?n ! ?L)"
        using L I shape0 by simp_all
      ultimately show ?thesis
        using run_signals_stamps [OF T1(1), of ?L "sig_stage sg"] by simp
    qed
    have steady: "clock_steady 0 xs" "clock_steady (clock_after 0 xs) (sg # ys)"
      using assms(2,3) zs by (simp_all add: clock_steady_append)
    have "started_by (clock_after 0 xs) T1"
      using run_signals_grows [OF T1(1) started_by_init steady(1)] by simp
    then have "snd (T1 ! ?L ! ?I) \<le> clock_after 0 xs"
      using L I shape1 unfolding started_by_def by simp
    moreover have "clock_after 0 xs \<le> sig_now sg" using steady(2) by simp
    ultimately have el: "0 \<le> elapsed_seconds sg xs"
      unfolding elapsed_seconds_def stamp [symmetric] by simp
    have upd: "accumulator (snd (mg_solve tr ?ia)) l i =
                 (if \<not> sig_flag sg \<and> l = ?L \<and> i = ?I
                  then accumulator (snd (mg_solve tr ?ix)) l i + elapsed_seconds sg xs
                  else accumulator (snd (mg_solve tr ?ix)) l i)"
      if l: "l \<le> max_level inp - min_level inp" and i: "i < 7" for l i
    proof -
      have len1: "l < length T1" "i < length (T1 ! l)"
        using l i shape1 by simp_all
      show ?thesis
        using fire_effect(5) [OF Ta len1] stamp
        by (auto simp add: accumulator_def ta tx elapsed_seconds_def)
    qed
    from rs L I el upd show ?thesis by simp
  qed
  from rx cells event show ?thesis by blast
qed

theorem stop_events_add_elapsed_time_under_steady_clock_witness:
  "log_levels (mg_data (sample_input 0 [start_at CoarseSolve 0 5, stop_at CoarseSolve 0 8]))
   \<and> signals (sample_input 0 [start_at CoarseSolve 0 5, stop_at CoarseSolve 0 8])
       = [start_at CoarseSolve 0 5] @ [stop_at CoarseSolve 0 8]
   \<and> clock_steady 0 (signals (sample_input 0 [start_at CoarseSolve 0 5, stop_at CoarseSolve 0 8]))
   \<and> fst (mg_solve True (sample_input 0 [start_at CoarseSolve 0 5, stop_at CoarseSolve 0 8])) = None
   \<and> accumulator (snd (mg_solve True (sample_input 0 []))) 0 3 = 0
   \<and> accumulator (snd (mg_solve True (sample_input 0 [start_at CoarseSolve 0 5]))) 0 3 = 0
   \<and> elapsed_seconds (stop_at CoarseSolve 0 8) [start_at CoarseSolve 0 5] = 3 / 1000000000
   \<and> accumulator (snd (mg_solve True
        (sample_input 0 [start_at CoarseSolve 0 5, stop_at CoarseSolve 0 8]))) 0 3
       = 3 / 1000000000
   \<and> accumulator (snd (mg_solve True
        (sample_input 0 [start_at CoarseSolve 0 5, stop_at CoarseSolve 0 8]))) 0 2
       = accumulator (snd (mg_solve True (sample_input 0 [start_at CoarseSolve 0 5]))) 0 2"
proof -
  let ?start = "start_at CoarseSolve 0 5" and ?stop = "stop_at CoarseSolve 0 8"
  let ?inp = "sample_input 0 [?start, ?stop]"
  have h1: "log_levels (mg_data ?inp)"
    by (simp add: sample_input_def sample_parameters_def)
  have h2: "signals ?inp = [?start] @ [?stop]"
    by (simp add: sample_input_def)
  have h2': "signals ?inp = [] @ [?start, ?stop]"
    by (simp add: sample_input_def)
  have h3: "clock_steady 0 (signals ?inp)"
    by (simp add: sample_input_def start_at_def stop_at_def)
  have h4: "fst (mg_solve True ?inp) = None"
    unfolding mg_solve_returns_iff
    by (simp add: sample_input_def sample_parameters_def coarse_type_supported_def
        run_defs)
  have u0: "?inp\<lparr>signals := []\<rparr> = sample_input 0 []"
    and u1: "?inp\<lparr>signals := [?start]\<rparr> = sample_input 0 [?start]"
    and u2: "?inp\<lparr>signals := [?start, ?stop]\<rparr> = ?inp"
    by (simp_all add: sample_input_def)
  have lv: "max_level ?inp - min_level ?inp = 1"
    by (simp add: sample_input_def)
  have st: "stage_index (sig_stage ?stop) = 3" "sig_level ?stop = 0" "\<not> sig_flag ?stop"
      "stage_index (sig_stage ?start) = 3" "sig_level ?start = 0" "sig_flag ?start"
    by (simp_all add: start_at_def stop_at_def)
  have el: "elapsed_seconds ?stop [?start] = 3 / 1000000000"
    by (simp add: elapsed_seconds_def start_at_def stop_at_def)
  note first = stop_events_add_elapsed_time_under_steady_clock [OF h1 h2' h3 h4]
  note second = stop_events_add_elapsed_time_under_steady_clock [OF h1 h2 h3 h4]
  have z: "accumulator (snd (mg_solve True (sample_input 0 []))) 0 3 = 0"
    using first lv unfolding u0 by simp
  have a: "accumulator (snd (mg_solve True (sample_input 0 [?start]))) 0 3
             = accumulator (snd (mg_solve True (sample_input 0 []))) 0 3"
    using first lv st unfolding u0 by (simp add: u1)
  have b: "accumulator (snd (mg_solve True ?inp)) 0 3
             = accumulator (snd (mg_solve True (sample_input 0 [?start]))) 0 3
                 + elapsed_seconds ?stop [?start]"
    using second lv st unfolding u1 by (simp add: u2)
  have c: "accumulator (snd (mg_solve True ?inp)) 0 2
             = accumulator (snd (mg_solve True (sample_input 0 [?start]))) 0 2"
    using second lv st unfolding u1 by (simp add: u2)
  show ?thesis
    using h1 h2 h3 h4 z a b c el by simp
qed

text \<open>
  C8 as stated fails: the callback subtracts two readings of \<open>system_clock\<close>, which can
  be set back. A coarse solve that starts at 5 ns and ends at 3 ns leaves the accumulator,
  which was zero, negative.
\<close>

theorem accumulator_decreases_when_clock_steps_back:
  "accumulator (snd (mg_solve True (sample_input 0 [start_at CoarseSolve 0 5]))) 0 3 = 0
   \<and> fst (mg_solve True (sample_input 0 [start_at CoarseSolve 0 5, stop_at CoarseSolve 0 3]))
       = None
   \<and> accumulator (snd (mg_solve True
        (sample_input 0 [start_at CoarseSolve 0 5, stop_at CoarseSolve 0 3]))) 0 3 < 0"
  by (simp add: run_defs)

subsection \<open>Which levels are estimated\<close>

text \<open>
  C4. When \<open>estimate_eigenvalues\<close> is true (and the smoother name has passed the check
  of line 73), \<open>mg_solve\<close> runs the eigenvalue estimation exactly once for each level
  in \<open>min_level + 1..max_level\<close>, in that order, and never for the coarsest level
  \<open>min_level\<close>, whose two eigenvalue estimates remain at the NaN sentinel. This holds in
  whatever way the call ends.
\<close>

theorem estimation_runs_once_above_coarsest_level:
  assumes "sm_type (smoother (mg_data inp)) = ''chebyshev''"
    and "estimate_eigenvalues (mg_data inp)"
    and "levels_ok inp"
  shows "estimated_levels (trace (snd (mg_solve tr inp)))
           = [min_level inp + 1..<max_level inp + 1]
         \<and> min_level inp \<notin> set (estimated_levels (trace (snd (mg_solve tr inp))))
         \<and> min_eigenvalues (snd (mg_solve tr inp)) ! min_level inp = NaN
         \<and> max_eigenvalues (snd (mg_solve tr inp)) ! min_level inp = NaN"
proof -
  let ?s2 = "snd (estimate_phase inp
               (init_smoothers inp (emit [LevelMatricesWrapped] initial_state)))"
  have lo: "min_level inp \<le> max_level inp" using assms(3) by (simp add: levels_ok_def)
  have lv: "estimation_levels inp = [min_level inp + 1..<max_level inp + 1]"
    using assms(2) by (simp add: estimation_levels_def)
  have notin: "min_level inp \<notin> set (estimation_levels inp)"
    by (auto simp add: estimation_levels_def)
  have mn: "min_eigenvalues ?s2 ! min_level inp = NaN"
    using estimate_phase_min [OF lo] notin by simp
  have mx: "max_eigenvalues ?s2 ! min_level inp = NaN"
    using estimate_phase_max [OF lo] notin by simp
  show ?thesis
    using mg_solve_estimated_levels [OF assms(1)] mg_solve_eigenvalues(1,2) [OF assms(1)]
      lv notin mn mx
    by simp
qed

theorem estimation_runs_once_above_coarsest_level_witness:
  "sm_type (smoother (mg_data (sample_input 3 []))) = ''chebyshev''
   \<and> estimate_eigenvalues (mg_data (sample_input 3 []))
   \<and> levels_ok (sample_input 3 [])
   \<and> estimated_levels (trace (snd (mg_solve True (sample_input 3 [])))) = [4]
   \<and> min_eigenvalues (snd (mg_solve True (sample_input 3 []))) ! 3 = NaN
   \<and> max_eigenvalues (snd (mg_solve True (sample_input 3 []))) ! 3 = NaN"
proof -
  have h1: "sm_type (smoother (mg_data (sample_input 3 []))) = ''chebyshev''"
    by (simp add: sample_input_def sample_parameters_def)
  have h2: "estimate_eigenvalues (mg_data (sample_input 3 []))"
    by (simp add: sample_input_def sample_parameters_def)
  have h3: "levels_ok (sample_input 3 [])"
    by (simp add: sample_input_def levels_ok_def)
  show ?thesis
    using h1 h2 h3 estimation_runs_once_above_coarsest_level [OF h1 h2 h3, of True]
    by (simp add: sample_input_def)
qed

subsection \<open>The configuration of an estimated level\<close>

text \<open>
  C5. For every level \<open>L\<close> for which eigenvalue estimation has run, the production
  smoother is initialised exactly once, and the configuration it receives for \<open>L\<close>
  has \<open>eig_cg_n_iterations\<close> equal to zero and \<open>max_eigenvalue\<close> equal to 1.1 times
  the maximum-eigenvalue estimate of \<open>L\<close>; the other three fields are those of lines 90
  to 92.
\<close>

theorem estimated_level_reaches_production_smoother:
  assumes "EstimateEigenvalues L \<in> set (trace (snd (mg_solve tr inp)))"
    and "levels_ok inp"
  shows "\<exists>sd. smoother_initializations (trace (snd (mg_solve tr inp))) = [sd]
            \<and> eig_cg_n_iterations (sd ! (L - min_level inp)) = 0
            \<and> max_eigenvalue (sd ! (L - min_level inp))
                = dmul (snd (chebyshev_estimates inp L)) (Val (11 / 10))
            \<and> preconditioner (sd ! (L - min_level inp)) = SmootherPreconditioner L
            \<and> smoothing_range (sd ! (L - min_level inp))
                = sm_smoothing_range (smoother (mg_data inp))
            \<and> degree (sd ! (L - min_level inp)) = sm_degree (smoother (mg_data inp))"
proof -
  let ?s1 = "init_smoothers inp (emit [LevelMatricesWrapped] initial_state)"
  let ?s2 = "snd (estimate_phase inp ?s1)"
  have cheb: "sm_type (smoother (mg_data inp)) = ''chebyshev''"
  proof (rule ccontr)
    assume "sm_type (smoother (mg_data inp)) \<noteq> ''chebyshev''"
    then have "trace (snd (mg_solve tr inp)) = []"
      by (simp add: mg_solve_def initial_state_def)
    with assms(1) show False by simp
  qed
  have "L \<in> set (estimation_levels inp)"
    using assms(1) mg_solve_estimated_levels [OF cheb, of tr]
    by (simp add: estimated_levels_member)
  then have est: "estimate_eigenvalues (mg_data inp)"
    and L: "min_level inp < L" "L \<le> max_level inp"
    by (auto simp add: estimation_levels_def split: if_splits)
  have mem: "L - min_level inp + min_level inp \<in> set (estimation_levels inp)"
    using est L by (auto simp add: estimation_levels_def)
  have shift: "L - min_level inp + min_level inp = L" using L by simp
  have j: "L - min_level inp < length (smoother_data ?s1)" using L by simp
  have cfg: "smoother_data ?s1 ! (L - min_level inp)
               = configured inp L (default_additional_data inp)"
    using init_smoothers_data [of inp L] L by simp
  have "smoother_data ?s2 ! (L - min_level inp)
          = estimated inp L (configured inp L (default_additional_data inp))"
    using estimate_phase_data [OF j, of inp] mem by (simp only: shift cfg if_True)
  then have entry: "smoother_data (snd (mg_solve tr inp)) ! (L - min_level inp)
          = estimated inp L (configured inp L (default_additional_data inp))"
    using mg_solve_eigenvalues(3) [OF cheb, of tr] by simp
  have once: "smoother_initializations (trace (snd (mg_solve tr inp)))
                = [smoother_data (snd (mg_solve tr inp))]"
    using mg_solve_smoother_initializations [OF cheb, of tr] L by simp
  show ?thesis
    using once entry by (simp add: estimated_def configured_def)
qed

theorem estimated_level_reaches_production_smoother_witness:
  "EstimateEigenvalues 4 \<in> set (trace (snd (mg_solve True (sample_input 3 []))))
   \<and> levels_ok (sample_input 3 [])
   \<and> (\<exists>sd. smoother_initializations (trace (snd (mg_solve True (sample_input 3 [])))) = [sd]
          \<and> eig_cg_n_iterations (sd ! 1) = 0
          \<and> max_eigenvalue (sd ! 1) = Val (44 / 10))"
proof -
  have "estimated_levels (trace (snd (mg_solve True (sample_input 3 [])))) = [4]"
    using mg_solve_estimated_levels [of "sample_input 3 []" True]
    by (simp add: estimation_levels_def sample_input_def sample_parameters_def)
  then have h1: "EstimateEigenvalues 4 \<in> set (trace (snd (mg_solve True (sample_input 3 []))))"
    by (simp add: estimated_levels_member)
  have h2: "levels_ok (sample_input 3 [])"
    by (simp add: sample_input_def levels_ok_def)
  show ?thesis
    using h1 h2 estimated_level_reaches_production_smoother [OF h1 h2]
    by (auto simp add: sample_input_def)
qed

subsection \<open>An unknown coarse-grid solver name\<close>

text \<open>
  C2, as the code has it. For every configuration whose \<open>coarse_solver.type\<close> is not
  one of the three recognised names, \<open>mg_solve\<close> ends in a failure, and everything it
  has done by then belongs to lines 83 to 137: no coarse-grid solver or preconditioner of
  it has been set up (no diagonal extraction), the multigrid object has not been created,
  no timer callback connected, no outer iteration run and no table written. When the
  smoother name is "chebyshev", the eigenvalue estimation has run on every level above
  the coarsest one if \<open>estimate_eigenvalues\<close> is true, and, unless the estimation block
  itself has failed (estimation on a hierarchy whose \<open>max_level\<close> is zero), the failure
  is \<open>ExcNotImplemented\<close> and the production smoother has been initialised once.
\<close>

theorem unknown_coarse_solver_aborts_at_dispatch:
  assumes "cs_type (coarse_solver (mg_data inp))
             \<notin> {''cg'', ''cg_with_chebyshev'', ''cg_with_amg''}"
    and "levels_ok inp"
  shows "fst (mg_solve tr inp) \<noteq> None
         \<and> list_all before_dispatch (trace (snd (mg_solve tr inp)))
         \<and> (sm_type (smoother (mg_data inp)) = ''chebyshev'' \<longrightarrow>
              estimated_levels (trace (snd (mg_solve tr inp))) =
                (if estimate_eigenvalues (mg_data inp)
                 then [min_level inp + 1..<max_level inp + 1] else [])
              \<and> ((estimate_eigenvalues (mg_data inp) \<longrightarrow> 1 \<le> max_level inp) \<longrightarrow>
                    fst (mg_solve tr inp) = Some ExcNotImplemented
                    \<and> smoother_initializations (trace (snd (mg_solve tr inp)))
                        = [smoother_data (snd (mg_solve tr inp))]))"
proof (cases "sm_type (smoother (mg_data inp)) = ''chebyshev''")
  case False
  then show ?thesis by (simp add: mg_solve_def initial_state_def)
next
  case True
  have bad: "fst (coarse_phase tr inp initial_state) \<noteq> None"
    using assms(1) by (simp add: coarse_phase_fst coarse_type_supported_def)
  show ?thesis
    using mg_solve_failed_dispatch [OF True bad] mg_solve_estimated_levels [OF True, of tr]
      mg_solve_smoother_initializations [OF True, of tr] True
    by (auto simp add: estimation_levels_def)
qed

theorem unknown_coarse_solver_aborts_at_dispatch_witness:
  "cs_type (coarse_solver (mg_data (with_coarse_type ''direct'' (sample_input 0 []))))
     \<notin> {''cg'', ''cg_with_chebyshev'', ''cg_with_amg''}
   \<and> levels_ok (with_coarse_type ''direct'' (sample_input 0 []))
   \<and> fst (mg_solve True (with_coarse_type ''direct'' (sample_input 0 [])))
       = Some ExcNotImplemented
   \<and> list_all before_dispatch
       (trace (snd (mg_solve True (with_coarse_type ''direct'' (sample_input 0 [])))))
   \<and> estimated_levels
       (trace (snd (mg_solve True (with_coarse_type ''direct'' (sample_input 0 []))))) = [1]"
proof -
  let ?inp = "with_coarse_type ''direct'' (sample_input 0 [])"
  have h1: "cs_type (coarse_solver (mg_data ?inp))
              \<notin> {''cg'', ''cg_with_chebyshev'', ''cg_with_amg''}"
    by (simp add: with_coarse_type_def)
  have h2: "levels_ok ?inp"
    by (simp add: with_coarse_type_def sample_input_def levels_ok_def)
  show ?thesis
    using h1 h2 unknown_coarse_solver_aborts_at_dispatch [OF h1 h2, of True]
    by (simp add: with_coarse_type_def sample_input_def sample_parameters_def)
qed

text \<open>
  C2 as stated fails: the name of the coarse-grid solver is only looked at on line 149.
  On a two-level hierarchy with estimation enabled and the name "direct", the call ends
  in \<open>ExcNotImplemented\<close> after a level vector has been allocated and the eigenvalues
  estimated on level 1, and after the production smoother has been initialised.
\<close>

theorem unknown_coarse_solver_aborts_after_estimation:
  "cs_type (coarse_solver (mg_data (with_coarse_type ''direct'' (sample_input 0 []))))
     \<notin> {''cg'', ''cg_with_chebyshev'', ''cg_with_amg''}
   \<and> fst (mg_solve True (with_coarse_type ''direct'' (sample_input 0 [])))
       = Some ExcNotImplemented
   \<and> InitializeDofVector 1
       \<in> set (trace (snd (mg_solve True (with_coarse_type ''direct'' (sample_input 0 [])))))
   \<and> EstimateEigenvalues 1
       \<in> set (trace (snd (mg_solve True (with_coarse_type ''direct'' (sample_input 0 [])))))
   \<and> smoother_initializations
       (trace (snd (mg_solve True (with_coarse_type ''direct'' (sample_input 0 []))))) \<noteq> []"
  by (simp add: run_defs)

subsection \<open>The algebraic-multigrid coarse solver in a build without it\<close>

text \<open>
  C7. If \<open>coarse_solver.type\<close> is "cg_with_amg" and the build has no
  \<open>DEAL_II_WITH_TRILINOS\<close>, \<open>mg_solve\<close> ends in a failure and constructs no
  coarse-grid solver of any kind: nothing from the dispatch onwards is done. The failure
  is \<open>ExcNotImplemented\<close> whenever the estimation block before it has not failed itself
  (estimation on a hierarchy whose \<open>max_level\<close> is zero).
\<close>

theorem amg_without_trilinos_aborts:
  assumes "cs_type (coarse_solver (mg_data inp)) = ''cg_with_amg''"
  shows "fst (mg_solve False inp) \<noteq> None
         \<and> (\<forall>kind level.
               CoarseGridSolverCreated kind level \<notin> set (trace (snd (mg_solve False inp))))
         \<and> list_all before_dispatch (trace (snd (mg_solve False inp)))
         \<and> ((sm_type (smoother (mg_data inp)) = ''chebyshev''
               \<and> estimate_eigenvalues (mg_data inp) \<longrightarrow> 1 \<le> max_level inp) \<longrightarrow>
              fst (mg_solve False inp) = Some ExcNotImplemented)"
proof -
  have core: "fst (mg_solve False inp) \<noteq> None
         \<and> list_all before_dispatch (trace (snd (mg_solve False inp)))
         \<and> ((sm_type (smoother (mg_data inp)) = ''chebyshev''
               \<and> estimate_eigenvalues (mg_data inp) \<longrightarrow> 1 \<le> max_level inp) \<longrightarrow>
              fst (mg_solve False inp) = Some ExcNotImplemented)"
  proof (cases "sm_type (smoother (mg_data inp)) = ''chebyshev''")
    case False
    then show ?thesis by (simp add: mg_solve_def initial_state_def)
  next
    case True
    have bad: "fst (coarse_phase False inp initial_state) \<noteq> None"
      using assms by (simp add: coarse_phase_fst coarse_type_supported_def)
    show ?thesis
      using mg_solve_failed_dispatch [OF True bad] True by simp
  qed
  then have "\<forall>e \<in> set (trace (snd (mg_solve False inp))). before_dispatch e"
    by (simp add: list_all_iff)
  then have "\<forall>kind level.
               CoarseGridSolverCreated kind level \<notin> set (trace (snd (mg_solve False inp)))"
    by auto
  with core show ?thesis by simp
qed

theorem amg_without_trilinos_aborts_witness:
  "cs_type (coarse_solver (mg_data (sample_input 0 []))) = ''cg_with_amg''
   \<and> fst (mg_solve False (sample_input 0 [])) = Some ExcNotImplemented
   \<and> (\<forall>kind level.
         CoarseGridSolverCreated kind level
           \<notin> set (trace (snd (mg_solve False (sample_input 0 [])))))"
proof -
  have h: "cs_type (coarse_solver (mg_data (sample_input 0 []))) = ''cg_with_amg''"
    by (simp add: sample_input_def sample_parameters_def)
  show ?thesis
    using h amg_without_trilinos_aborts [OF h]
    by (simp add: sample_input_def sample_parameters_def)
qed

subsection \<open>Without per-level logging\<close>

text \<open>
  C10. \<open>mg_solve\<close> writes the per-level table to the output file only when
  \<open>log_levels\<close> is true and the calling process is rank 0. When \<open>log_levels\<close> is
  false, no timer callback is connected to the cycle engine, every accumulator of the
  timers is zero in the state the call ends in (all seven of every row when the call
  returns), and no table or file is produced, whether or not eigenvalue estimation ran.
\<close>

theorem table_and_callbacks_need_log_levels:
  "(\<forall>f t. TableWritten f t \<in> set (trace (snd (mg_solve tr inp))) \<longrightarrow>
           log_levels (mg_data inp) \<and> this_mpi_process inp = 0)
   \<and> (\<not> log_levels (mg_data inp) \<longrightarrow>
          (\<forall>i label. TimerConnected i label \<notin> set (trace (snd (mg_solve tr inp))))
        \<and> (\<forall>f t. TableWritten f t \<notin> set (trace (snd (mg_solve tr inp))))
        \<and> (\<forall>row \<in> set (all_mg_timers (snd (mg_solve tr inp))). \<forall>t \<in> set row. fst t = 0)
        \<and> (fst (mg_solve tr inp) = None \<longrightarrow>
              all_mg_timers (snd (mg_solve tr inp))
                = replicate (max_level inp - min_level inp + 1) (replicate 7 (0, 0))))"
proof (cases "sm_type (smoother (mg_data inp)) = ''chebyshev''")
  case False
  then show ?thesis by (simp add: mg_solve_def initial_state_def)
next
  case True
  let ?s2 = "snd (estimate_phase inp
               (init_smoothers inp (emit [LevelMatricesWrapped] initial_state)))"
  obtain es where es: "trace ?s2 = LevelMatricesWrapped # es" "list_all estimation_event es"
    using mg_solve_trace_before_timers [OF True] by blast
  have none: "\<And>i l. TimerConnected i l \<notin> set es" "\<And>f t. TableWritten f t \<notin> set es"
    using estimation_events_only [OF es(2)] by simp_all
  have empty: "all_mg_timers ?s2 = []"
    by (simp add: estimate_phase_frame(1) initial_state_def)
  have tab: "\<forall>f t. TableWritten f t \<in> set (trace (snd (mg_solve tr inp))) \<longrightarrow>
           log_levels (mg_data inp) \<and> this_mpi_process inp = 0"
    using True es(1) none unfolding mg_solve_def
    by (auto simp add: later_phases split: sum.splits if_splits)
  have quiet: "(\<forall>i label. TimerConnected i label \<notin> set (trace (snd (mg_solve tr inp))))
        \<and> (\<forall>f t. TableWritten f t \<notin> set (trace (snd (mg_solve tr inp))))"
    if "\<not> log_levels (mg_data inp)"
    using that True es(1) none unfolding mg_solve_def
    by (auto simp add: later_phases split: sum.splits if_splits)
  have timers: "all_mg_timers (snd (mg_solve tr inp)) = []
                \<or> all_mg_timers (snd (mg_solve tr inp))
                    = replicate (max_level inp - min_level inp + 1) (replicate 7 (0, 0))"
    if "\<not> log_levels (mg_data inp)"
    using that True empty unfolding mg_solve_def
    by (auto simp add: later_phases init_timers_eq split: sum.splits if_splits
        simp del: replicate_Suc)
  have zero: "\<forall>row \<in> set (all_mg_timers (snd (mg_solve tr inp))). \<forall>t \<in> set row. fst t = 0"
    if "\<not> log_levels (mg_data inp)"
    using timers [OF that] by (auto simp del: replicate_Suc)
  have full: "all_mg_timers (snd (mg_solve tr inp))
                = replicate (max_level inp - min_level inp + 1) (replicate 7 (0, 0))"
    if "\<not> log_levels (mg_data inp)" and "fst (mg_solve tr inp) = None"
    using mg_solve_timers [OF that(2)] that(1) by (simp add: init_timers_eq)
  show ?thesis
    using tab quiet zero full by blast
qed

theorem table_and_callbacks_need_log_levels_witness:
  "TableWritten ''mg_level.log''
     [(''level'', [UIntCell 0, UIntCell 1]),
      (''pre_smoother_step'', [DoubleCell (Val 0), DoubleCell (Val 0)]),
      (''residual_step'', [DoubleCell (Val 0), DoubleCell (Val 0)]),
      (''restriction'', [DoubleCell (Val 0), DoubleCell (Val 0)]),
      (''coarse_solve'', [DoubleCell (Val 0), DoubleCell (Val 0)]),
      (''prolongation'', [DoubleCell (Val 0), DoubleCell (Val 0)]),
      (''edge_prolongation'', [DoubleCell (Val 0), DoubleCell (Val 0)]),
      (''post_smoother_step'', [DoubleCell (Val 0), DoubleCell (Val 0)]),
      (''min_eigenvalue'', [DoubleCell NaN, DoubleCell (Val (1 / 2))]),
      (''max_eigenvalue'', [DoubleCell NaN, DoubleCell (Val 1)])]
     \<in> set (trace (snd (mg_solve True (sample_input 0 []))))
   \<and> log_levels (mg_data (sample_input 0 []))
   \<and> this_mpi_process (sample_input 0 []) = 0
   \<and> \<not> log_levels (mg_data (with_log_levels False (sample_input 0 [])))
   \<and> fst (mg_solve True (with_log_levels False (sample_input 0 []))) = None
   \<and> (\<forall>i label. TimerConnected i label
         \<notin> set (trace (snd (mg_solve True (with_log_levels False (sample_input 0 []))))))
   \<and> (\<forall>f t. TableWritten f t
         \<notin> set (trace (snd (mg_solve True (with_log_levels False (sample_input 0 []))))))
   \<and> all_mg_timers (snd (mg_solve True (with_log_levels False (sample_input 0 []))))
       = replicate 2 (replicate 7 (0, 0))"
proof -
  let ?on = "sample_input 0 []" and ?off = "with_log_levels False (sample_input 0 [])"
  have h1: "TableWritten ''mg_level.log''
     [(''level'', [UIntCell 0, UIntCell 1]),
      (''pre_smoother_step'', [DoubleCell (Val 0), DoubleCell (Val 0)]),
      (''residual_step'', [DoubleCell (Val 0), DoubleCell (Val 0)]),
      (''restriction'', [DoubleCell (Val 0), DoubleCell (Val 0)]),
      (''coarse_solve'', [DoubleCell (Val 0), DoubleCell (Val 0)]),
      (''prolongation'', [DoubleCell (Val 0), DoubleCell (Val 0)]),
      (''edge_prolongation'', [DoubleCell (Val 0), DoubleCell (Val 0)]),
      (''post_smoother_step'', [DoubleCell (Val 0), DoubleCell (Val 0)]),
      (''min_eigenvalue'', [DoubleCell NaN, DoubleCell (Val (1 / 2))]),
      (''max_eigenvalue'', [DoubleCell NaN, DoubleCell (Val 1)])]
     \<in> set (trace (snd (mg_solve True ?on)))"
    by (simp add: run_defs)
  have h2: "\<not> log_levels (mg_data ?off)"
    by (simp add: with_log_levels_def)
  have h3: "fst (mg_solve True ?off) = None"
    unfolding mg_solve_returns_iff
    by (simp add: with_log_levels_def sample_input_def sample_parameters_def
        coarse_type_supported_def)
  have lv: "max_level ?off - min_level ?off + 1 = 2"
    by (simp add: with_log_levels_def sample_input_def)
  have a: "log_levels (mg_data ?on) \<and> this_mpi_process ?on = 0"
    using table_and_callbacks_need_log_levels [of True ?on] h1 by blast
  have b: "(\<forall>i label. TimerConnected i label \<notin> set (trace (snd (mg_solve True ?off))))
        \<and> (\<forall>f t. TableWritten f t \<notin> set (trace (snd (mg_solve True ?off))))
        \<and> all_mg_timers (snd (mg_solve True ?off)) = replicate 2 (replicate 7 (0, 0))"
    using table_and_callbacks_need_log_levels [of True ?off] h2 h3 unfolding lv by blast
  show ?thesis
    using h1 h2 h3 a b by blast
qed

subsection \<open>Hierarchies that start at level zero\<close>

text \<open>
  With \<open>min_level = 0\<close> rows and levels coincide: every callback fired at a level up
  to \<open>max_level\<close> stays within the timers, the summary value is the maximum of the
  estimates of levels \<open>1..max_level\<close> (when none of them is NaN and there is such a
  level), and row \<open>L\<close> of the table holds the accumulators and the estimates of level
  \<open>L\<close>.
\<close>

lemma stage_index_less: "stage_index st < 7"
  by (cases st) simp_all

lemma rows_of_seven_init: "rows_of_seven n (init_timers n)"
  by (simp add: rows_of_seven_def init_timers_eq del: replicate_Suc)

lemma fire_shape:
  "fire sg T = Inr T' \<Longrightarrow>
     length T' = length T \<and> (\<forall>l < length T. length (T' ! l) = length (T ! l))"
  by (auto simp add: fire_def mg_timer_function_def Let_def nth_list_update
      split: if_splits)

lemma fire_in_range:
  assumes "rows_of_seven n T" and "sig_level sg < n"
  shows "\<exists>T'. fire sg T = Inr T' \<and> rows_of_seven n T'"
proof -
  have inb: "sig_level sg < length T"
      "stage_index (sig_stage sg) < length (T ! sig_level sg)"
    using assms stage_index_less [of "sig_stage sg"] by (simp_all add: rows_of_seven_def)
  then have "\<exists>T'. fire sg T = Inr T'"
    by (cases "sig_flag sg") (simp_all add: fire_def mg_timer_function_def Let_def)
  then obtain T' where T': "fire sg T = Inr T'" by blast
  have "rows_of_seven n T'"
    using fire_shape [OF T'] assms(1) by (simp add: rows_of_seven_def)
  with T' show ?thesis by blast
qed

lemma run_signals_in_range:
  "rows_of_seven n T \<Longrightarrow> \<forall>sg \<in> set sgs. sig_level sg < n \<Longrightarrow>
     \<exists>T'. run_signals sgs T = Inr T' \<and> rows_of_seven n T'"
proof (induction sgs arbitrary: T)
  case Nil
  then show ?case by simp
next
  case (Cons sg sgs)
  obtain T1 where T1: "fire sg T = Inr T1" "rows_of_seven n T1"
    using fire_in_range [OF Cons.prems(1), of sg] Cons.prems(2) by auto
  obtain T' where "run_signals sgs T1 = Inr T'" "rows_of_seven n T'"
    using Cons.IH [OF T1(2)] Cons.prems(2) by auto
  with T1(1) show ?case by simp
qed

lemma callbacks_in_range_from_level_zero:
  assumes "min_level inp = 0"
    and "\<forall>sg \<in> set (signals inp). sig_level sg \<le> max_level inp"
  shows "\<exists>T. run_signals (signals inp) (init_timers (max_level inp - min_level inp + 1))
               = Inr T"
proof -
  have "\<forall>sg \<in> set (signals inp). sig_level sg < max_level inp - min_level inp + 1"
    using assms by auto
  then show ?thesis
    using run_signals_in_range [OF rows_of_seven_init] by blast
qed

lemma max_element_from_values:
  "max_element_from (Val a) (map Val xs) = Val (Max (set (a # xs)))"
proof (induction xs arbitrary: a)
  case Nil
  show ?case by simp
next
  case (Cons x xs)
  have "Max (set (max a x # xs)) = Max (set (a # x # xs))"
  proof (cases xs)
    case Nil
    then show ?thesis by simp
  next
    case (Cons y ys)
    then have "set xs \<noteq> {}" by simp
    then show ?thesis by (simp add: max.assoc)
  qed
  moreover have "max_element_from (Val a) (map Val (x # xs))
                   = max_element_from (Val (max a x)) (map Val xs)"
    by (auto simp add: max_def)
  ultimately show ?case using Cons.IH [of "max a x"] by (simp only:)
qed

lemma max_element_values:
  "xs \<noteq> [] \<Longrightarrow> max_element (map Val xs) = Some (Val (Max (set xs)))"
  by (cases xs) (simp_all add: max_element_from_values)

lemma estimate_phase_summary:
  assumes "estimate_eigenvalues (mg_data inp)" and "1 \<le> max_level inp"
  shows "\<exists>m. max_element (tl (max_eigenvalues (snd (estimate_phase inp s)))) = Some m
            \<and> PrintMaxEV m \<in> set (trace (snd (estimate_phase inp s)))
            \<and> TableMaxEV m \<in> set (trace (snd (estimate_phase inp s)))"
proof -
  have "fst (estimate_phase inp s) = None"
    using assms by (simp add: estimate_phase_fst)
  then show ?thesis
    using assms(1)
    by (auto simp add: estimate_phase_def Let_def split: option.splits)
qed

lemma max_ev_from_level_zero:
  assumes "sm_type (smoother (mg_data inp)) = ''chebyshev''"
    and "estimate_eigenvalues (mg_data inp)"
    and "min_level inp = 0" and "1 \<le> max_level inp"
    and "\<forall>l \<in> {1..max_level inp}. snd (chebyshev_estimates inp l) = Val (v l)"
  shows "PrintMaxEV (Val (Max (v ` {1..max_level inp})))
           \<in> set (trace (snd (mg_solve tr inp)))
         \<and> TableMaxEV (Val (Max (v ` {1..max_level inp})))
           \<in> set (trace (snd (mg_solve tr inp)))"
proof -
  let ?s1 = "init_smoothers inp (emit [LevelMatricesWrapped] initial_state)"
  let ?s2 = "snd (estimate_phase inp ?s1)"
  let ?hi = "max_level inp"
  have lv: "estimation_levels inp = [1..<Suc ?hi]"
    using assms(2,3) by (simp add: estimation_levels_def)
  have "tl (max_eigenvalues ?s2) = map Val (map v [1..<Suc ?hi])"
  proof (rule nth_equalityI)
    show "length (tl (max_eigenvalues ?s2)) = length (map Val (map v [1..<Suc ?hi]))"
      by (simp add: estimate_phase_frame(4))
  next
    fix i assume "i < length (tl (max_eigenvalues ?s2))"
    then have i: "i < ?hi" by (simp add: estimate_phase_frame(4))
    then have "tl (max_eigenvalues ?s2) ! i = max_eigenvalues ?s2 ! Suc i"
      by (simp add: nth_tl estimate_phase_frame(4))
    also have "\<dots> = snd (chebyshev_estimates inp (Suc i))"
    proof -
      have "Suc i \<in> set (estimation_levels inp)" unfolding lv using i by auto
      moreover have "Suc i \<le> ?hi" using i by simp
      ultimately show ?thesis using estimate_phase_max [of "Suc i" inp ?s1] by simp
    qed
    also have "\<dots> = Val (v (Suc i))" using assms(5) i by simp
    finally show "tl (max_eigenvalues ?s2) ! i = map Val (map v [1..<Suc ?hi]) ! i"
      using i by (simp del: upt_Suc)
  qed
  moreover have "map v [1..<Suc ?hi] \<noteq> []" using assms(4) by simp
  moreover have "set (map v [1..<Suc ?hi]) = v ` {1..?hi}"
    by (simp add: atLeastLessThanSuc_atLeastAtMost del: upt_Suc)
  ultimately have m: "max_element (tl (max_eigenvalues ?s2))
                        = Some (Val (Max (v ` {1..?hi})))"
    using max_element_values [of "map v [1..<Suc ?hi]"] by simp
  have ev: "PrintMaxEV (Val (Max (v ` {1..?hi}))) \<in> set (trace ?s2)
          \<and> TableMaxEV (Val (Max (v ` {1..?hi}))) \<in> set (trace ?s2)"
    using estimate_phase_summary [OF assms(2,4), of ?s1] m by simp
  have "set (trace ?s2) \<subseteq> set (trace (snd (mg_solve tr inp)))"
    using assms(1,2,4) unfolding mg_solve_def
    by (auto simp add: later_phases estimate_phase_fst split: sum.splits)
  with ev show ?thesis by blast
qed

lemma column_add_value:
  "column (add_value k v t) key = (if key = k then column t k @ [v] else column t key)"
  by (induction k v t rule: add_value.induct) (auto simp add: column_def)

lemma column_table_row_level:
  "column (table_row inp s l t) ''level'' = column t ''level'' @ [UIntCell l]"
  by (simp add: table_row_def Let_def column_add_value)

lemma column_table_row_stage:
  "column (table_row inp s l t) (stage_label st) =
     column t (stage_label st) @ [DoubleCell (Val (accumulator s l (stage_index st)))]"
  by (cases st) (simp_all add: table_row_def Let_def column_add_value accumulator_def)

lemma column_table_row_eigenvalues:
  "estimate_eigenvalues (mg_data inp) \<Longrightarrow>
     column (table_row inp s l t) ''min_eigenvalue'' =
       column t ''min_eigenvalue'' @ [DoubleCell (min_eigenvalues s ! l)]
     \<and> column (table_row inp s l t) ''max_eigenvalue'' =
       column t ''max_eigenvalue'' @ [DoubleCell (max_eigenvalues s ! l)]"
  by (simp add: table_row_def Let_def column_add_value)

lemma column_rows:
  assumes "\<And>l t. column (table_row inp s l t) key = column t key @ [f l]"
  shows "column (fold (table_row inp s) ls t) key = column t key @ map f ls"
  by (induction ls arbitrary: t) (simp_all add: assms)

lemma level_table_columns:
  "column (level_table inp s) ''level'' = map UIntCell [0..<length (all_mg_timers s)]"
  "column (level_table inp s) (stage_label st) =
     map (\<lambda>l. DoubleCell (Val (accumulator s l (stage_index st))))
       [0..<length (all_mg_timers s)]"
  "estimate_eigenvalues (mg_data inp) \<Longrightarrow>
     column (level_table inp s) ''min_eigenvalue'' =
       map (\<lambda>l. DoubleCell (min_eigenvalues s ! l)) [0..<length (all_mg_timers s)]"
  "estimate_eigenvalues (mg_data inp) \<Longrightarrow>
     column (level_table inp s) ''max_eigenvalue'' =
       map (\<lambda>l. DoubleCell (max_eigenvalues s ! l)) [0..<length (all_mg_timers s)]"
proof -
  let ?ls = "[0..<length (all_mg_timers s)]"
  have nil: "\<And>key. column [] key = []" by (simp add: column_def)
  have "column (fold (table_row inp s) ?ls []) ''level'' = column [] ''level'' @ map UIntCell ?ls"
    by (rule column_rows) (rule column_table_row_level)
  then show "column (level_table inp s) ''level'' = map UIntCell ?ls"
    by (simp only: level_table_def for_below_fold nil append_Nil)
  have "column (fold (table_row inp s) ?ls []) (stage_label st) =
          column [] (stage_label st)
            @ map (\<lambda>l. DoubleCell (Val (accumulator s l (stage_index st)))) ?ls"
    by (rule column_rows) (rule column_table_row_stage)
  then show "column (level_table inp s) (stage_label st) =
               map (\<lambda>l. DoubleCell (Val (accumulator s l (stage_index st)))) ?ls"
    by (simp only: level_table_def for_below_fold nil append_Nil)
  {
    assume est: "estimate_eigenvalues (mg_data inp)"
    have "column (fold (table_row inp s) ?ls []) ''min_eigenvalue'' =
            column [] ''min_eigenvalue'' @ map (\<lambda>l. DoubleCell (min_eigenvalues s ! l)) ?ls"
      by (rule column_rows) (simp add: column_table_row_eigenvalues [OF est])
    then show "column (level_table inp s) ''min_eigenvalue'' =
                 map (\<lambda>l. DoubleCell (min_eigenvalues s ! l)) ?ls"
      by (simp only: level_table_def for_below_fold nil append_Nil)
    have "column (fold (table_row inp s) ?ls []) ''max_eigenvalue'' =
            column [] ''max_eigenvalue'' @ map (\<lambda>l. DoubleCell (max_eigenvalues s ! l)) ?ls"
      by (rule column_rows) (simp add: column_table_row_eigenvalues [OF est])
    then show "column (level_table inp s) ''max_eigenvalue'' =
                 map (\<lambda>l. DoubleCell (max_eigenvalues s ! l)) ?ls"
      by (simp only: level_table_def for_below_fold nil append_Nil)
  }
qed

lemma level_table_emit: "level_table inp (emit es s) = level_table inp s"
proof -
  have "table_row inp (emit es s) = table_row inp s"
    by (simp add: fun_eq_iff table_row_def Let_def)
  then show ?thesis by (simp add: level_table_def)
qed

lemma mg_solve_table:
  assumes "fst (mg_solve tr inp) = None"
    and "log_levels (mg_data inp)" and "this_mpi_process inp = 0"
  shows "TableWritten (filename_mg_level inp) (level_table inp (snd (mg_solve tr inp)))
           \<in> set (trace (snd (mg_solve tr inp)))"
  using assms unfolding mg_solve_def
  by (auto simp add: case_prod_unfold option.case_eq_if Let_def table_phase_def
      level_table_emit split: if_splits)

lemma run_signals_shape:
  "run_signals sgs T = Inr T' \<Longrightarrow> length T' = length T"
proof (induction sgs arbitrary: T)
  case Nil
  then show ?case by simp
next
  case (Cons sg sgs)
  from Cons.prems obtain T1 where T1: "fire sg T = Inr T1" "run_signals sgs T1 = Inr T'"
    by (auto split: sum.splits)
  show ?case using Cons.IH [OF T1(2)] fire_shape [OF T1(1)] by simp
qed

lemma mg_solve_timer_rows:
  assumes "fst (mg_solve tr inp) = None"
  shows "length (all_mg_timers (snd (mg_solve tr inp))) = max_level inp - min_level inp + 1"
proof (cases "log_levels (mg_data inp)")
  case True
  then have run: "run_signals (signals inp) (init_timers (max_level inp - min_level inp + 1))
                = Inr (all_mg_timers (snd (mg_solve tr inp)))"
    using mg_solve_timers [OF assms] by simp
  show ?thesis
    using run_signals_shape [OF run] by (simp add: init_timers_eq)
next
  case False
  then show ?thesis using mg_solve_timers [OF assms] by (simp add: init_timers_eq)
qed

lemma table_rows_from_level_zero:
  assumes "fst (mg_solve tr inp) = None"
    and "log_levels (mg_data inp)" and "this_mpi_process inp = 0"
    and "estimate_eigenvalues (mg_data inp)"
    and "min_level inp = 0"
  shows "\<exists>t. TableWritten (filename_mg_level inp) t \<in> set (trace (snd (mg_solve tr inp)))
           \<and> column t ''level'' = map UIntCell [0..<Suc (max_level inp)]
           \<and> (\<forall>st. column t (stage_label st) =
                 map (\<lambda>L. DoubleCell (Val (accumulator (snd (mg_solve tr inp)) L
                                          (stage_index st))))
                   [0..<Suc (max_level inp)])
           \<and> column t ''min_eigenvalue'' =
               map (\<lambda>L. DoubleCell (if 1 \<le> L then fst (chebyshev_estimates inp L) else NaN))
                 [0..<Suc (max_level inp)]
           \<and> column t ''max_eigenvalue'' =
               map (\<lambda>L. DoubleCell (if 1 \<le> L then snd (chebyshev_estimates inp L) else NaN))
                 [0..<Suc (max_level inp)]"
proof -
  let ?st = "snd (mg_solve tr inp)"
  let ?s1 = "init_smoothers inp (emit [LevelMatricesWrapped] initial_state)"
  have cheb: "sm_type (smoother (mg_data inp)) = ''chebyshev''"
    using assms(1) unfolding mg_solve_returns_iff by simp
  have rows: "length (all_mg_timers ?st) = Suc (max_level inp)"
    using mg_solve_timer_rows [OF assms(1)] assms(5) by simp
  have lv: "\<And>L. L \<in> set (estimation_levels inp) \<longleftrightarrow> 1 \<le> L \<and> L \<le> max_level inp"
    using assms(4,5) by (auto simp add: estimation_levels_def)
  have mn: "min_eigenvalues ?st ! L = (if 1 \<le> L then fst (chebyshev_estimates inp L) else NaN)"
    if "L \<le> max_level inp" for L
    using estimate_phase_min [OF that, of ?s1] mg_solve_eigenvalues(1) [OF cheb, of tr] lv that
    by simp
  have mx: "max_eigenvalues ?st ! L = (if 1 \<le> L then snd (chebyshev_estimates inp L) else NaN)"
    if "L \<le> max_level inp" for L
    using estimate_phase_max [OF that, of ?s1] mg_solve_eigenvalues(2) [OF cheb, of tr] lv that
    by simp
  have cmin: "column (level_table inp ?st) ''min_eigenvalue'' =
               map (\<lambda>L. DoubleCell (if 1 \<le> L then fst (chebyshev_estimates inp L) else NaN))
                 [0..<Suc (max_level inp)]"
    unfolding level_table_columns(3) [OF assms(4)] rows
    by (rule map_cong) (simp_all add: mn del: upt_Suc)
  have cmax: "column (level_table inp ?st) ''max_eigenvalue'' =
               map (\<lambda>L. DoubleCell (if 1 \<le> L then snd (chebyshev_estimates inp L) else NaN))
                 [0..<Suc (max_level inp)]"
    unfolding level_table_columns(4) [OF assms(4)] rows
    by (rule map_cong) (simp_all add: mx del: upt_Suc)
  have clev: "column (level_table inp ?st) ''level'' = map UIntCell [0..<Suc (max_level inp)]"
    unfolding level_table_columns(1) rows ..
  have cst: "\<forall>st. column (level_table inp ?st) (stage_label st) =
                 map (\<lambda>L. DoubleCell (Val (accumulator ?st L (stage_index st))))
                   [0..<Suc (max_level inp)]"
    unfolding level_table_columns(2) rows by simp
  show ?thesis
    using mg_solve_table [OF assms(1,2,3)] clev cst cmin cmax by blast
qed

subsection \<open>Hierarchies that do not start at level zero\<close>

text \<open>
  The timers are allocated with \<open>max_level - min_level + 1\<close> rows (line 215), but the
  callbacks index them with the level as the engine passes it (lines 227 to 231), and the
  table loop counts rows from zero and reads the eigenvalue vectors, which are indexed by
  level, at the row number (lines 259 to 272). The summary maximum skips exactly one entry
  of \<open>max_eigenvalues\<close>, the one of level zero (line 122). The three theorems below
  run a hierarchy of levels 1 and 2.

  C1. The estimator ran on level 2 and returned \<open>(1/2, 2)\<close>, and the call returned and
  wrote its table. The table has the rows 0 and 1, no row for level 2, and both
  eigenvalue columns hold the NaN sentinel only: the estimates of level 2 are in no row.
\<close>

theorem table_misses_estimates_above_level_zero:
  "min_level (sample_input 1 []) = 1 \<and> max_level (sample_input 1 []) = 2
   \<and> chebyshev_estimates (sample_input 1 []) 2 = (Val (1 / 2), Val 2)
   \<and> fst (mg_solve True (sample_input 1 [])) = None
   \<and> estimated_levels (trace (snd (mg_solve True (sample_input 1 [])))) = [2]
   \<and> TableWritten ''mg_level.log''
       [(''level'', [UIntCell 0, UIntCell 1]),
        (''pre_smoother_step'', [DoubleCell (Val 0), DoubleCell (Val 0)]),
        (''residual_step'', [DoubleCell (Val 0), DoubleCell (Val 0)]),
        (''restriction'', [DoubleCell (Val 0), DoubleCell (Val 0)]),
        (''coarse_solve'', [DoubleCell (Val 0), DoubleCell (Val 0)]),
        (''prolongation'', [DoubleCell (Val 0), DoubleCell (Val 0)]),
        (''edge_prolongation'', [DoubleCell (Val 0), DoubleCell (Val 0)]),
        (''post_smoother_step'', [DoubleCell (Val 0), DoubleCell (Val 0)]),
        (''min_eigenvalue'', [DoubleCell NaN, DoubleCell NaN]),
        (''max_eigenvalue'', [DoubleCell NaN, DoubleCell NaN])]
       \<in> set (trace (snd (mg_solve True (sample_input 1 []))))"
  by (simp add: run_defs)

text \<open>
  C3. On the same run the only estimated level is 2 and its maximum-eigenvalue estimate
  is 2, but the value logged and recorded under "max_ev" is NaN: the range of
  \<open>std::max_element\<close> starts at entry 1, which was never estimated, and no comparison
  with NaN is true.
\<close>

theorem max_ev_is_nan_above_level_zero:
  "min_level (sample_input 1 []) = 1 \<and> max_level (sample_input 1 []) = 2
   \<and> estimated_levels (trace (snd (mg_solve True (sample_input 1 [])))) = [2]
   \<and> max_eigenvalues (snd (mg_solve True (sample_input 1 []))) = [NaN, NaN, Val 2]
   \<and> PrintMaxEV NaN \<in> set (trace (snd (mg_solve True (sample_input 1 []))))
   \<and> TableMaxEV NaN \<in> set (trace (snd (mg_solve True (sample_input 1 []))))"
  by (simp add: run_defs)

text \<open>
  C9. A pre-smoother signal fired at level 2, which is within \<open>min_level..max_level\<close>,
  makes the callback index the two rows of the timers at position 2.
\<close>

theorem timer_callback_out_of_range_above_level_zero:
  "min_level (sample_input 1 [start_at PreSmootherStep 2 100]) \<le> 2
   \<and> 2 \<le> max_level (sample_input 1 [start_at PreSmootherStep 2 100])
   \<and> length (all_mg_timers (snd (mg_solve True
        (sample_input 1 [start_at PreSmootherStep 2 100])))) = 2
   \<and> mg_timer_function (stage_index PreSmootherStep) True 2 100 (init_timers 2)
       = Inl UndefinedBehaviour
   \<and> fst (mg_solve True (sample_input 1 [start_at PreSmootherStep 2 100]))
       = Some UndefinedBehaviour"
  by (simp add: run_defs)

end
